theory Spec2Isabelle
  imports Complex_Main "HOL-Library.Word"
begin

chapter \<open>The embedding\<close>

section \<open>Conventions\<close>

text \<open>
  The development embeds the numerical helpers of \<^verbatim>\<open>utils.py\<close>: the Gaussian XOR
  generator, the constructor of the network, the Gini impurity, the Hellinger distance,
  the Bayes posterior \<^verbatim>\<open>pdf\<close> and the polytope analysis \<^verbatim>\<open>get_polytopes\<close>.

  \<^item> Floating-point numbers (NumPy \<^verbatim>\<open>float64\<close>, torch \<^verbatim>\<open>float32\<close>) are idealised as
    \<^typ>\<open>real\<close>: rounding, overflow and underflow are not modelled.
  \<^item> NumPy integers of the default integer type are \<^typ>\<open>64 word\<close>: addition,
    multiplication and powers wrap around modulo \<open>2 ^ 64\<close>, \<^const>\<open>sint\<close> reads the value.
  \<^item> A two-dimensional array is the list of its rows, every row of the same length (an
    array without rows carries no width).
  \<^item> An exception is a value \<open>Inl e\<close> of the result type; the floating-point
    value \<^verbatim>\<open>nan\<close>, which has no counterpart in \<^typ>\<open>real\<close>, is reported as
    \<open>Inl NotANumber\<close> as well.
  \<^item> Random draws (NumPy's generator, torch's parameter initialisation) are taken from a
    function given as an argument.
\<close>

datatype error =
    AttributeError
  | IndexError
  | TypeError
  | ValueError
  | ZeroDivisionError
  | NotANumber

type_synonym matrix = "real list list"

type_synonym imatrix = "64 word list list"

type_synonym vec2 = "real \<times> real"

type_synonym mat2 = "vec2 \<times> vec2"

section \<open>The Gaussian XOR generator\<close>

text \<open>
  \<^verbatim>\<open>
  def generate_gaussian_parity(n, cov_scale=1, angle_params=None, k=1, acorn=None):
      means = [[-1, -1], [1, 1], [1, -1], [-1, 1]]
      blob = np.concatenate(
          [np.random.multivariate_normal(mean, cov_scale * np.eye(len(mean)), size=int(n / 4))
           for mean in means])
      X = np.zeros_like(blob)
      Y = np.concatenate([np.ones((int(n / 4))) * int(i < 2) for i in range(len(means))])
      X[:, 0] = blob[:, 0] * np.cos(angle_params * np.pi / 180) + blob[:, 1] * np.sin(
          angle_params * np.pi / 180)
      X[:, 1] = -blob[:, 0] * np.sin(angle_params * np.pi / 180) + blob[:, 1] * np.cos(
          angle_params * np.pi / 180)
      return X, Y.astype(int)
  \<close>
  The function tests nothing about \<^verbatim>\<open>n\<close>. \<^verbatim>\<open>int(n / 4)\<close> truncates the quotient
  towards zero; NumPy refuses a negative \<^verbatim>\<open>size\<close> with \<^verbatim>\<open>ValueError\<close>, and the product
  \<^verbatim>\<open>angle_params * np.pi\<close> of the default \<^verbatim>\<open>None\<close> is a \<^verbatim>\<open>TypeError\<close>, raised after
  the points are drawn.
\<close>

definition means :: "vec2 list" where
  "means = [(- 1, - 1), (1, 1), (1, - 1), (- 1, 1)]"

text \<open>\<^verbatim>\<open>int(i < 2)\<close>: the label of the points drawn around \<^verbatim>\<open>means[i]\<close>.\<close>

definition component_label :: "nat \<Rightarrow> 64 word" where
  "component_label i = (if i < 2 then 1 else 0)"

text \<open>\<^verbatim>\<open>int(n / 4)\<close> for a Python integer \<^verbatim>\<open>n\<close>.\<close>

definition quarter :: "int \<Rightarrow> int" where
  "quarter n = (if 0 \<le> n then n div 4 else - ((- n) div 4))"

text \<open>
  \<^verbatim>\<open>np.random.multivariate_normal(mean, cov_scale * np.eye(2), size)\<close>: the draws come
  from \<open>draw mean cov_scale 0\<close>, \<open>draw mean cov_scale 1\<close>, ...
\<close>

definition multivariate_normal ::
  "(vec2 \<Rightarrow> real \<Rightarrow> nat \<Rightarrow> vec2) \<Rightarrow> vec2 \<Rightarrow> real \<Rightarrow> int \<Rightarrow> error + vec2 list" where
  "multivariate_normal draw mean cov_scale size_arg =
     (if size_arg < 0 then Inl ValueError
      else Inr (map (draw mean cov_scale) [0..<nat size_arg]))"

text \<open>The list comprehension over \<^verbatim>\<open>means\<close>, stopped by the first call that raises.\<close>

fun draw_blobs ::
  "(vec2 \<Rightarrow> real \<Rightarrow> nat \<Rightarrow> vec2) \<Rightarrow> real \<Rightarrow> int \<Rightarrow> vec2 list \<Rightarrow> error + vec2 list" where
  "draw_blobs draw cov_scale size_arg [] = Inr []"
| "draw_blobs draw cov_scale size_arg (mean # rest) =
     (case multivariate_normal draw mean cov_scale size_arg of
        Inl e \<Rightarrow> Inl e
      | Inr pts \<Rightarrow>
          (case draw_blobs draw cov_scale size_arg rest of
             Inl e \<Rightarrow> Inl e
           | Inr more \<Rightarrow> Inr (pts @ more)))"

definition rotate_deg :: "real \<Rightarrow> vec2 \<Rightarrow> vec2" where
  "rotate_deg angle b =
     (fst b * cos (angle * pi / 180) + snd b * sin (angle * pi / 180),
      - fst b * sin (angle * pi / 180) + snd b * cos (angle * pi / 180))"

definition generate_gaussian_parity ::
  "(vec2 \<Rightarrow> real \<Rightarrow> nat \<Rightarrow> vec2) \<Rightarrow> int \<Rightarrow> real \<Rightarrow> real option
     \<Rightarrow> error + (vec2 list \<times> 64 word list)" where
  "generate_gaussian_parity draw n cov_scale angle_params =
     (case draw_blobs draw cov_scale (quarter n) means of
        Inl e \<Rightarrow> Inl e
      | Inr blob \<Rightarrow>
          (let Y = concat (map (\<lambda>i. replicate (nat (quarter n)) (component_label i))
                             [0..<length means])
           in case angle_params of
                None \<Rightarrow> Inl TypeError
              | Some angle \<Rightarrow> Inr (map (rotate_deg angle) blob, Y)))"

text \<open>A fixed stand-in for the random draws: every point is its mean.\<close>

definition draw_mean :: "vec2 \<Rightarrow> real \<Rightarrow> nat \<Rightarrow> vec2" where
  "draw_mean mean cov_scale k = mean"

text \<open>The number of points of a result, \<open>None\<close> for an exception.\<close>

definition n_points :: "error + (vec2 list \<times> 64 word list) \<Rightarrow> nat option" where
  "n_points r = (case r of Inl e \<Rightarrow> None | Inr XY \<Rightarrow> Some (length (fst XY)))"

section \<open>The network\<close>

text \<open>
  A \<^verbatim>\<open>torch.nn.Linear\<close> holds its weight of shape \<^verbatim>\<open>(out_features, in_features)\<close>, a row
  for each output unit, and its bias of shape \<^verbatim>\<open>(out_features)\<close>, which is \<^verbatim>\<open>None\<close>
  when the layer is built with \<^verbatim>\<open>bias=False\<close>. A \<^verbatim>\<open>torch.nn.BatchNorm1d\<close> holds its
  affine parameters and running statistics.
\<close>

record nn_linear =
  in_features :: nat
  out_features :: nat
  weight :: matrix
  bias :: "real list option"

record batch_norm =
  num_features :: nat
  bn_weight :: "real list"
  bn_bias :: "real list"
  running_mean :: "real list"
  running_var :: "real list"

datatype module =
    Linear nn_linear
  | Activation
  | BatchNorm1d batch_norm

record net =
  sequential :: "module list"

text \<open>
  \<^verbatim>\<open>[module for module in model.modules() if type(module) == torch.nn.Linear]\<close>: the
  containers (the model, its \<^verbatim>\<open>Sequential\<close>) are no \<^verbatim>\<open>Linear\<close>, the children come in
  the order of the \<^verbatim>\<open>Sequential\<close>.
\<close>

fun linear_of :: "module \<Rightarrow> nn_linear option" where
  "linear_of (Linear l) = Some l"
| "linear_of Activation = None"
| "linear_of (BatchNorm1d b) = None"

definition linear_layers :: "module list \<Rightarrow> nn_linear list" where
  "linear_layers ms = List.map_filter linear_of ms"

text \<open>
  \<^verbatim>\<open>nn.Linear(n_in, n_out, bias=b)\<close>: the \<open>k\<close>-th \<^verbatim>\<open>Linear\<close> built for a model takes its
  initial weight \<open>fst (init k) r c\<close> and bias \<open>snd (init k) r\<close> from \<open>init\<close>.
\<close>

definition nn_Linear ::
  "(nat \<Rightarrow> (nat \<Rightarrow> nat \<Rightarrow> real) \<times> (nat \<Rightarrow> real)) \<Rightarrow> nat \<Rightarrow> nat \<Rightarrow> nat \<Rightarrow> bool \<Rightarrow> module" where
  "nn_Linear init k n_in n_out use_bias =
     Linear \<lparr> in_features = n_in, out_features = n_out,
              weight = map (\<lambda>r. map (\<lambda>c. fst (init k) r c) [0..<n_in]) [0..<n_out],
              bias = (if use_bias then Some (map (snd (init k)) [0..<n_out]) else None) \<rparr>"

text \<open>\<^verbatim>\<open>nn.BatchNorm1d(h)\<close> with its initial parameters.\<close>

definition nn_BatchNorm1d :: "nat \<Rightarrow> module" where
  "nn_BatchNorm1d h =
     BatchNorm1d \<lparr> num_features = h, bn_weight = replicate h 1, bn_bias = replicate h 0,
                   running_mean = replicate h 0, running_var = replicate h 1 \<rparr>"

text \<open>
  \<^verbatim>\<open>
  module.append( activation )
  if bn:
      module.append( nn.BatchNorm1d( n_in ) )
  module.append( nn.Linear(n_in, n_out, bias=bias) )
  \<close>
  the three lines that \<^verbatim>\<open>Net.__init__\<close> repeats.
\<close>

definition append_block ::
  "(nat \<Rightarrow> (nat \<Rightarrow> nat \<Rightarrow> real) \<times> (nat \<Rightarrow> real)) \<Rightarrow> bool \<Rightarrow> bool \<Rightarrow> nat \<Rightarrow> nat
     \<Rightarrow> module list \<Rightarrow> module list" where
  "append_block init use_bias bn n_in n_out module_list =
     (let module1 = module_list @ [Activation];
          module2 = (if bn then module1 @ [nn_BatchNorm1d n_in] else module1)
      in module2 @ [nn_Linear init (length (linear_layers module2)) n_in n_out use_bias])"

text \<open>\<^verbatim>\<open>for ll in range(n_hidden): ...\<close>\<close>

fun hidden_blocks ::
  "(nat \<Rightarrow> (nat \<Rightarrow> nat \<Rightarrow> real) \<times> (nat \<Rightarrow> real)) \<Rightarrow> bool \<Rightarrow> bool \<Rightarrow> nat \<Rightarrow> nat
     \<Rightarrow> module list \<Rightarrow> module list" where
  "hidden_blocks init use_bias bn hidden_size 0 module_list = module_list"
| "hidden_blocks init use_bias bn hidden_size (Suc n) module_list =
     hidden_blocks init use_bias bn hidden_size n
       (append_block init use_bias bn hidden_size hidden_size module_list)"

text \<open>
  \<^verbatim>\<open>
  def __init__(self, in_dim, out_dim, hidden_size=10, n_hidden=2,
              activation=torch.nn.ReLU(), bias=False, penultimate=False, bn=False):
      module = nn.ModuleList()
      module.append(nn.Linear(in_dim, hidden_size, bias=bias))
      for ll in range(n_hidden):
          module.append( activation )
          if bn:
              module.append( nn.BatchNorm1d( hidden_size ) )
          module.append( nn.Linear(hidden_size, hidden_size, bias=bias) )
      if penultimate:
          module.append( activation )
          if bn:
              module.append( nn.BatchNorm1d( hidden_size ) )
          module.append( nn.Linear(hidden_size, 2, bias=bias) )
          hidden_size = 2
      module.append( activation )
      if bn:
          module.append( nn.BatchNorm1d( hidden_size ) )
      module.append( nn.Linear(hidden_size, out_dim, bias=bias) )
      self.sequential = nn.Sequential(*module)
  \<close>
\<close>

definition Net_init ::
  "(nat \<Rightarrow> (nat \<Rightarrow> nat \<Rightarrow> real) \<times> (nat \<Rightarrow> real)) \<Rightarrow> nat \<Rightarrow> nat \<Rightarrow> nat \<Rightarrow> nat
     \<Rightarrow> bool \<Rightarrow> bool \<Rightarrow> bool \<Rightarrow> net" where
  "Net_init init in_dim out_dim hidden_size n_hidden use_bias penultimate bn =
     (let module0 = [nn_Linear init 0 in_dim hidden_size use_bias];
          module1 = hidden_blocks init use_bias bn hidden_size n_hidden module0;
          module2 = (if penultimate
                     then append_block init use_bias bn hidden_size 2 module1
                     else module1);
          hidden_size' = (if penultimate then 2 else hidden_size);
          module3 = append_block init use_bias bn hidden_size' out_dim module2
      in \<lparr> sequential = module3 \<rparr>)"

text \<open>An initialisation that sets every weight to \<open>1\<close> and every bias to \<open>0\<close>.\<close>

definition init_ones :: "nat \<Rightarrow> (nat \<Rightarrow> nat \<Rightarrow> real) \<times> (nat \<Rightarrow> real)" where
  "init_ones k = (\<lambda>r c. 1, \<lambda>r. 0)"

section \<open>Gini impurity\<close>

text \<open>
  \<^verbatim>\<open>
  def gini_impurity(P1=0, P2=0):
      denom = P1 + P2
      Ginx = 2 * (P1/denom) * (P2/denom)
      return(Ginx)
  \<close>
  There is no test of \<^verbatim>\<open>denom\<close>: the division is evaluated whatever its value. For
  Python numbers (the default arguments are the integers \<^verbatim>\<open>0\<close>) a zero denominator
  raises \<^verbatim>\<open>ZeroDivisionError\<close>; for NumPy floating scalars \<^verbatim>\<open>0.0/0.0\<close> is
  \<^verbatim>\<open>nan\<close> with a warning. Both are the branch \<open>Inl ZeroDivisionError\<close> here.
\<close>

definition gini_impurity :: "real \<Rightarrow> real \<Rightarrow> error + real" where
  "gini_impurity P1 P2 =
     (let denom = P1 + P2 in
      if denom = 0 then Inl ZeroDivisionError
      else Inr (2 * (P1 / denom) * (P2 / denom)))"

text \<open>
  \<^verbatim>\<open>
  def gini_impurity_mean(polytope_memberships, predicts):
      gini_mean_score = []
      for l in np.unique(polytope_memberships):
          cur_l_idx = predicts[polytope_memberships==l]
          pos_count = np.sum(cur_l_idx)
          neg_count = len(cur_l_idx) - pos_count
          gini = gini_impurity(pos_count, neg_count)
          gini_mean_score.append(gini)
      return np.array(gini_mean_score).mean()
  \<close>
  \<^verbatim>\<open>polytope_memberships\<close> holds the identifier of each point and \<^verbatim>\<open>predicts\<close> the rounded
  prediction of each point (a column, read here as the list of its entries). Indexing with
  a mask of another length is an \<^verbatim>\<open>IndexError\<close>.
\<close>

text \<open>\<^verbatim>\<open>np.unique\<close>: the distinct values in increasing order.\<close>

definition np_unique :: "64 word list \<Rightarrow> 64 word list" where
  "np_unique xs = sort_key sint (remdups xs)"

text \<open>\<^verbatim>\<open>predicts[polytope_memberships==l]\<close>\<close>

definition select_region :: "real list \<Rightarrow> 64 word list \<Rightarrow> 64 word \<Rightarrow> real list" where
  "select_region predicts polytope_memberships l =
     map fst (filter (\<lambda>pm. snd pm = l) (zip predicts polytope_memberships))"

fun region_scores :: "64 word list \<Rightarrow> real list \<Rightarrow> 64 word list \<Rightarrow> error + real list" where
  "region_scores polytope_memberships predicts [] = Inr []"
| "region_scores polytope_memberships predicts (l # ls) =
     (let cur_l_idx = select_region predicts polytope_memberships l;
          pos_count = sum_list cur_l_idx;
          neg_count = real (length cur_l_idx) - pos_count
      in case gini_impurity pos_count neg_count of
           Inl e \<Rightarrow> Inl e
         | Inr gini \<Rightarrow>
             (case region_scores polytope_memberships predicts ls of
                Inl e \<Rightarrow> Inl e
              | Inr ginis \<Rightarrow> Inr (gini # ginis)))"

text \<open>\<^verbatim>\<open>np.array(v).mean()\<close>, which is \<^verbatim>\<open>nan\<close> for an empty array.\<close>

definition np_mean :: "real list \<Rightarrow> error + real" where
  "np_mean v = (if v = [] then Inl NotANumber else Inr (sum_list v / real (length v)))"

definition gini_impurity_mean :: "64 word list \<Rightarrow> real list \<Rightarrow> error + real" where
  "gini_impurity_mean polytope_memberships predicts =
     (if np_unique polytope_memberships \<noteq> [] \<and> length predicts \<noteq> length polytope_memberships
      then Inl IndexError
      else case region_scores polytope_memberships predicts (np_unique polytope_memberships) of
             Inl e \<Rightarrow> Inl e
           | Inr gini_mean_score \<Rightarrow> np_mean gini_mean_score)"

section \<open>Hellinger distance\<close>

text \<open>
  \<^verbatim>\<open>
  def hellinger_explicit(p, q):
      return np.mean(np.sqrt(np.sum((np.sqrt(p) - np.sqrt(q)) ** 2, axis = 1)) / np.sqrt(2))
  \<close>
  \<^verbatim>\<open>np.sqrt\<close> of a negative entry is \<^verbatim>\<open>nan\<close>, and so is \<^verbatim>\<open>np.mean\<close> of an array without
  rows; a \<^verbatim>\<open>nan\<close> anywhere makes the mean \<^verbatim>\<open>nan\<close>. Both arrays have the same shape: the
  subtraction of arrays of different shapes (a \<^verbatim>\<open>ValueError\<close>, unless NumPy can broadcast
  one to the other) is the branch \<open>Inl ValueError\<close>, and nothing below rests on it.
\<close>

text \<open>\<^verbatim>\<open>np.sqrt(np.sum((np.sqrt(p) - np.sqrt(q)) ** 2)) / np.sqrt(2)\<close> of one row.\<close>

definition hellinger_row :: "real list \<Rightarrow> real list \<Rightarrow> real" where
  "hellinger_row pr qr =
     sqrt (sum_list (map2 (\<lambda>a b. (sqrt a - sqrt b)\<^sup>2) pr qr)) / sqrt 2"

definition hellinger_explicit :: "matrix \<Rightarrow> matrix \<Rightarrow> error + real" where
  "hellinger_explicit p q =
     (if map length p \<noteq> map length q then Inl ValueError
      else if list_ex (list_ex (\<lambda>v. v < 0)) (p @ q) then Inl NotANumber
      else np_mean (map2 hellinger_row p q))"

text \<open>
  A discrete probability vector: no negative entry, the entries sum to \<open>1\<close>. Two rows
  have disjoint supports when no position is positive in both.
\<close>

definition prob_row :: "real list \<Rightarrow> bool" where
  "prob_row r \<longleftrightarrow> list_all (\<lambda>v. 0 \<le> v) r \<and> sum_list r = 1"

definition disjoint_rows :: "real list \<Rightarrow> real list \<Rightarrow> bool" where
  "disjoint_rows pr qr \<longleftrightarrow> list_all (\<lambda>ab. fst ab = 0 \<or> snd ab = 0) (zip pr qr)"

section \<open>The Bayes posterior\<close>

text \<open>
  \<^verbatim>\<open>
  def pdf(x):
      mu01, mu02, mu11, mu12 = [[-1, -1], [1, 1], [-1, 1], [1, -1]]
      cov = 1 * np.eye(2)
      inv_cov = np.linalg.inv(cov)
      p0 = (
          np.exp(-(x - mu01)@inv_cov@(x-mu01).T)
          + np.exp(-(x - mu02)@inv_cov@(x-mu02).T)
      )/(2*np.pi*np.sqrt(np.linalg.det(cov)))
      p1 = (
          np.exp(-(x - mu11)@inv_cov@(x-mu11).T)
          + np.exp(-(x - mu12)@inv_cov@(x-mu12).T)
      )/(2*np.pi*np.sqrt(np.linalg.det(cov)))
      return [p1/(p0+p1), p0/(p0+p1)]
  \<close>
\<close>

definition eye2 :: mat2 where
  "eye2 = ((1, 0), (0, 1))"

definition scale2 :: "real \<Rightarrow> mat2 \<Rightarrow> mat2" where
  "scale2 c M = ((c * fst (fst M), c * snd (fst M)), (c * fst (snd M), c * snd (snd M)))"

definition det2 :: "mat2 \<Rightarrow> real" where
  "det2 M = fst (fst M) * snd (snd M) - snd (fst M) * fst (snd M)"

definition inv2 :: "mat2 \<Rightarrow> mat2" where
  "inv2 M =
     ((snd (snd M) / det2 M, - snd (fst M) / det2 M),
      (- fst (snd M) / det2 M, fst (fst M) / det2 M))"

definition sub2 :: "vec2 \<Rightarrow> vec2 \<Rightarrow> vec2" where
  "sub2 x mu = (fst x - fst mu, snd x - snd mu)"

text \<open>\<^verbatim>\<open>v @ M @ v.T\<close>\<close>

definition quad_form :: "vec2 \<Rightarrow> mat2 \<Rightarrow> real" where
  "quad_form v M =
     (fst v * fst (fst M) + snd v * fst (snd M)) * fst v
     + (fst v * snd (fst M) + snd v * snd (snd M)) * snd v"

definition pdf :: "vec2 \<Rightarrow> real list" where
  "pdf x =
     (let mu01 = (- 1, - 1); mu02 = (1, 1); mu11 = (- 1, 1); mu12 = (1, - 1);
          cov = scale2 1 eye2;
          inv_cov = inv2 cov;
          p0 = (exp (- quad_form (sub2 x mu01) inv_cov)
                + exp (- quad_form (sub2 x mu02) inv_cov)) / (2 * pi * sqrt (det2 cov));
          p1 = (exp (- quad_form (sub2 x mu11) inv_cov)
                + exp (- quad_form (sub2 x mu12) inv_cov)) / (2 * pi * sqrt (det2 cov))
      in [p1 / (p0 + p1), p0 / (p0 + p1)])"

text \<open>The term \<^verbatim>\<open>np.exp(-(x - mu)@inv_cov@(x-mu).T)\<close> for the unit covariance.\<close>

definition kern :: "vec2 \<Rightarrow> vec2 \<Rightarrow> real" where
  "kern x mu = exp (- ((fst x - fst mu)\<^sup>2 + (snd x - snd mu)\<^sup>2))"

text \<open>
  The reference the oracle is compared with, written from the specification: the density
  of the isotropic Gaussian with mean \<open>mu\<close> and covariance \<open>s * I\<close>, and the posterior
  probability, under the equal mixture of the four components of
  \<^const>\<open>generate_gaussian_parity\<close>, of the components whose points the generator labels
  \<open>1\<close>.
\<close>

definition spec_gaussian_density :: "real \<Rightarrow> vec2 \<Rightarrow> vec2 \<Rightarrow> real" where
  "spec_gaussian_density s mu x =
     exp (- ((fst x - fst mu)\<^sup>2 + (snd x - snd mu)\<^sup>2) / (2 * s)) / (2 * pi * s)"

definition spec_posterior_label1 :: "real \<Rightarrow> vec2 \<Rightarrow> real" where
  "spec_posterior_label1 s x =
     sum_list (map (\<lambda>i. spec_gaussian_density s (means ! i) x)
                   (filter (\<lambda>i. component_label i = 1) [0..<length means]))
     / sum_list (map (\<lambda>i. spec_gaussian_density s (means ! i) x) [0..<length means])"

section \<open>The polytope analysis\<close>

text \<open>
  \<^verbatim>\<open>
  def get_polytopes(model, train_x, penultimate=False):
      polytope_memberships = []
      last_activations = train_x.cpu().numpy()
      penultimate_act = None
      layers = [module for module in model.modules() if type(module) == torch.nn.Linear]

      for layer_id, layer in enumerate(layers):
          weights, bias = layer.weight.data.detach().cpu().numpy(), layer.bias.data.detach().cpu().numpy()
          preactivation = np.matmul(last_activations, weights.T) + bias
          if layer_id == len(layers) - 1:
              binary_preactivation = (preactivation > 0.5).astype('int')
          else:
              binary_preactivation = (preactivation > 0).astype('int')
          polytope_memberships.append(binary_preactivation)
          last_activations = preactivation * binary_preactivation

          if penultimate and layer_id == len(layers) - 1:
              penultimate_act = last_activations
      polytope_memberships = [np.tensordot(np.concatenate(polytope_memberships, axis = 1),
          2 ** np.arange(0, np.shape(np.concatenate(polytope_memberships, axis = 1))[1]), axes = 1)]

      if penultimate:
          return polytope_memberships, penultimate_act
      return polytope_memberships, last_activations
  \<close>
\<close>

text \<open>\<^verbatim>\<open>np.matmul(last_activations, weights.T)\<close>: one dot product for each row and unit.\<close>

definition dot :: "real list \<Rightarrow> real list \<Rightarrow> real" where
  "dot a w = sum_list (map2 (*) a w)"

definition matmul_T :: "matrix \<Rightarrow> matrix \<Rightarrow> matrix" where
  "matmul_T A W = map (\<lambda>a. map (dot a) W) A"

text \<open>
  The first two lines of the loop body. A layer built with \<^verbatim>\<open>bias=False\<close> has
  \<^verbatim>\<open>layer.bias = None\<close>, and \<^verbatim>\<open>layer.bias.data\<close> raises \<^verbatim>\<open>AttributeError\<close>;
  \<^verbatim>\<open>np.matmul\<close> raises \<^verbatim>\<open>ValueError\<close> when the rows of the batch do not have
  \<^verbatim>\<open>in_features\<close> entries. The bias, of the length of a row of the product, is added
  to every row.
\<close>

definition preactivation_of :: "nn_linear \<Rightarrow> matrix \<Rightarrow> error + matrix" where
  "preactivation_of layer acts =
     (case bias layer of
        None \<Rightarrow> Inl AttributeError
      | Some b \<Rightarrow>
          if list_ex (\<lambda>a. length a \<noteq> in_features layer) acts then Inl ValueError
          else Inr (map (\<lambda>row. map2 (+) row b) (matmul_T acts (weight layer))))"

text \<open>\<^verbatim>\<open>(preactivation > t).astype('int')\<close>\<close>

definition gt_mask :: "real \<Rightarrow> matrix \<Rightarrow> imatrix" where
  "gt_mask t M = map (map (\<lambda>v. if v > t then 1 else 0)) M"

text \<open>\<^verbatim>\<open>preactivation * binary_preactivation\<close>\<close>

definition mask_mult :: "matrix \<Rightarrow> imatrix \<Rightarrow> matrix" where
  "mask_mult M B = map2 (map2 (\<lambda>v b. v * real_of_int (sint b))) M B"

text \<open>The variables that the loop updates.\<close>

record loop_state =
  polytope_memberships :: "imatrix list"
  last_activations :: matrix
  penultimate_act :: "matrix option"

text \<open>One pass through the loop body, \<open>n\<close> being \<^verbatim>\<open>len(layers)\<close>.\<close>

definition layer_step ::
  "nat \<Rightarrow> bool \<Rightarrow> nat \<times> nn_linear \<Rightarrow> loop_state \<Rightarrow> error + loop_state" where
  "layer_step n penultimate il st =
     (case preactivation_of (snd il) (last_activations st) of
        Inl e \<Rightarrow> Inl e
      | Inr preactivation \<Rightarrow>
          (let binary_preactivation =
                 (if int (fst il) = int n - 1 then gt_mask (1 / 2) preactivation
                  else gt_mask 0 preactivation);
               st1 = st \<lparr> polytope_memberships :=
                            polytope_memberships st @ [binary_preactivation],
                          last_activations := mask_mult preactivation binary_preactivation \<rparr>
           in Inr (if penultimate \<and> int (fst il) = int n - 1
                   then st1 \<lparr> penultimate_act := Some (last_activations st1) \<rparr>
                   else st1)))"

fun layer_loop ::
  "nat \<Rightarrow> bool \<Rightarrow> (nat \<times> nn_linear) list \<Rightarrow> loop_state \<Rightarrow> error + loop_state" where
  "layer_loop n penultimate [] st = Inr st"
| "layer_loop n penultimate (il # rest) st =
     (case layer_step n penultimate il st of
        Inl e \<Rightarrow> Inl e
      | Inr st' \<Rightarrow> layer_loop n penultimate rest st')"

text \<open>The state before the loop, and the loop over \<^verbatim>\<open>enumerate(layers)\<close>.\<close>

definition initial_state :: "matrix \<Rightarrow> loop_state" where
  "initial_state train_x =
     \<lparr> polytope_memberships = [], last_activations = train_x, penultimate_act = None \<rparr>"

definition run_layers :: "nn_linear list \<Rightarrow> matrix \<Rightarrow> bool \<Rightarrow> error + loop_state" where
  "run_layers layers train_x penultimate =
     layer_loop (length layers) penultimate (enumerate 0 layers) (initial_state train_x)"

text \<open>
  \<^verbatim>\<open>np.concatenate(ms, axis = 1)\<close> of arrays with the same number of rows; an empty list of
  arrays is a \<^verbatim>\<open>ValueError\<close>.
\<close>

definition concatenate_axis1 :: "imatrix list \<Rightarrow> error + imatrix" where
  "concatenate_axis1 ms =
     (case ms of
        [] \<Rightarrow> Inl ValueError
      | m # rest \<Rightarrow> Inr (map (\<lambda>j. concat (map (\<lambda>M. M ! j) ms)) [0..<length m]))"

text \<open>\<^verbatim>\<open>np.shape(B)[1]\<close>\<close>

definition n_columns :: "imatrix \<Rightarrow> nat" where
  "n_columns B = (case B of [] \<Rightarrow> 0 | r # rest \<Rightarrow> length r)"

text \<open>\<^verbatim>\<open>2 ** np.arange(0, U)\<close>, an array of 64-bit integers: the power wraps around.\<close>

definition pow2_arange :: "nat \<Rightarrow> 64 word list" where
  "pow2_arange U = map (\<lambda>i. 2 ^ i) [0..<U]"

text \<open>\<^verbatim>\<open>np.tensordot(B, w, axes = 1)\<close> of a matrix and a vector of 64-bit integers.\<close>

definition tensordot1 :: "imatrix \<Rightarrow> 64 word list \<Rightarrow> 64 word list" where
  "tensordot1 B w = map (\<lambda>row. sum_list (map2 (*) row w)) B"

text \<open>The activation patterns of the batch: the concatenated masks, a row for each point.\<close>

definition activation_patterns :: "net \<Rightarrow> matrix \<Rightarrow> error + imatrix" where
  "activation_patterns model train_x =
     (case run_layers (linear_layers (sequential model)) train_x False of
        Inl e \<Rightarrow> Inl e
      | Inr st \<Rightarrow> concatenate_axis1 (polytope_memberships st))"

definition get_polytopes ::
  "net \<Rightarrow> matrix \<Rightarrow> bool \<Rightarrow> error + (64 word list list \<times> matrix option)" where
  "get_polytopes model train_x penultimate =
     (let layers = linear_layers (sequential model) in
      case run_layers layers train_x penultimate of
        Inl e \<Rightarrow> Inl e
      | Inr st \<Rightarrow>
          (case concatenate_axis1 (polytope_memberships st) of
             Inl e \<Rightarrow> Inl e
           | Inr bits \<Rightarrow>
               (let ids = [tensordot1 bits (pow2_arange (n_columns bits))]
                in if penultimate then Inr (ids, penultimate_act st)
                   else Inr (ids, Some (last_activations st)))))"

text \<open>
  The masks and the activations of a loop state, or the exception: what the loop computes
  apart from \<^verbatim>\<open>penultimate_act\<close>.
\<close>

definition loop_core :: "error + loop_state \<Rightarrow> error + (imatrix list \<times> matrix)" where
  "loop_core r =
     (case r of Inl e \<Rightarrow> Inl e
      | Inr st \<Rightarrow> Inr (polytope_memberships st, last_activations st))"

text \<open>
  A network with two affine layers of one unit each, weight \<open>1\<close> and bias \<open>0\<close>, as
  \<^verbatim>\<open>Net(1, 1, hidden_size=1, n_hidden=0, bias=True)\<close> has them.
\<close>

definition unit_layer :: nn_linear where
  "unit_layer = \<lparr> in_features = 1, out_features = 1, weight = [[1]], bias = Some [0] \<rparr>"

definition two_layer_net :: net where
  "two_layer_net = \<lparr> sequential = [Linear unit_layer, Activation, Linear unit_layer] \<rparr>"

text \<open>
  A network with \<open>64\<close> hidden units and one output, as
  \<^verbatim>\<open>Net(1, 1, hidden_size=64, n_hidden=0, bias=True)\<close> has them: the first hidden unit
  copies the input, the others are \<open>0\<close>, and the output is the first hidden unit
  minus \<open>1\<close>.
\<close>

definition wide_hidden :: nn_linear where
  "wide_hidden =
     \<lparr> in_features = 1, out_features = 64,
       weight = [1] # replicate 63 [0], bias = Some (replicate 64 0) \<rparr>"

definition wide_output :: nn_linear where
  "wide_output =
     \<lparr> in_features = 64, out_features = 1,
       weight = [1 # replicate 63 0], bias = Some [- 1] \<rparr>"

definition wide_net :: net where
  "wide_net = \<lparr> sequential = [Linear wide_hidden, Activation, Linear wide_output] \<rparr>"

text \<open>
  The identifier of one pattern, as \<^const>\<open>tensordot1\<close> computes it for each row; a pattern
  is a row of zeros and ones. \<open>bits_val\<close> is the number that the pattern denotes when bit
  \<open>i\<close> counts \<open>2 ^ i\<close> without wrap-around.
\<close>

definition region_id :: "64 word list \<Rightarrow> 64 word" where
  "region_id row = sum_list (map2 (*) row (pow2_arange (length row)))"

definition binary_row :: "64 word list \<Rightarrow> bool" where
  "binary_row row \<longleftrightarrow> list_all (\<lambda>b. b = 0 \<or> b = 1) row"

fun bits_val :: "64 word list \<Rightarrow> nat" where
  "bits_val [] = 0"
| "bits_val (b # bs) = unat b + 2 * bits_val bs"

text \<open>
  The shapes that \<^verbatim>\<open>nn.Linear\<close> and \<^verbatim>\<open>nn.Sequential\<close> keep for a model into which a batch of
  width \<open>w\<close> can be fed: every layer has a bias, a weight row and a bias entry for each of
  its \<^verbatim>\<open>out_features\<close> units, and takes the width that the layer before it gives.
\<close>

fun layers_fit :: "nat \<Rightarrow> nn_linear list \<Rightarrow> bool" where
  "layers_fit w [] = True"
| "layers_fit w (l # ls) =
     (in_features l = w \<and> length (weight l) = out_features l
      \<and> (case bias l of None \<Rightarrow> False | Some b \<Rightarrow> length b = out_features l)
      \<and> layers_fit (out_features l) ls)"

text \<open>The width that a list of layers gives for a batch of width \<open>w\<close>.\<close>

fun out_width :: "nat \<Rightarrow> nn_linear list \<Rightarrow> nat" where
  "out_width w [] = w"
| "out_width w (l # ls) = out_width (out_features l) ls"

text \<open>
  One pass of the loop, entry by entry: for a layer \<open>l\<close>, the activations \<open>a\<close> that enter
  it, and a threshold \<open>t\<close>, the preactivation \<open>pre\<close> is the product with the transposed
  weight plus the bias, the mask \<open>m\<close> is \<open>1\<close> where the preactivation exceeds \<open>t\<close> and \<open>0\<close>
  elsewhere, and the activations \<open>a'\<close> that leave the layer are the preactivation times
  the mask. It is the statement that the embedding of the loop body is compared with.
\<close>

definition pass_spec ::
  "real \<Rightarrow> nn_linear \<Rightarrow> matrix \<Rightarrow> matrix \<Rightarrow> imatrix \<Rightarrow> matrix \<Rightarrow> bool" where
  "pass_spec t l a pre m a' \<longleftrightarrow>
     (\<exists>b. bias l = Some b
        \<and> length pre = length a \<and> length m = length a \<and> length a' = length a
        \<and> (\<forall>r<length a.
              length (pre ! r) = min (length (weight l)) (length b)
            \<and> length (m ! r) = length (pre ! r)
            \<and> length (a' ! r) = length (pre ! r)
            \<and> (\<forall>u<length (pre ! r).
                  pre ! r ! u =
                    (\<Sum>k<min (length (a ! r)) (length (weight l ! u)).
                       a ! r ! k * weight l ! u ! k) + b ! u
                \<and> m ! r ! u = (if t < pre ! r ! u then 1 else 0)
                \<and> a' ! r ! u = pre ! r ! u * (if t < pre ! r ! u then 1 else 0))))"

chapter \<open>Properties\<close>

section \<open>The number of affine layers of the network\<close>

lemma linear_layers_append:
  "linear_layers (xs @ ys) = linear_layers xs @ linear_layers ys"
  by (simp add: linear_layers_def map_filter_def)

lemma linear_layers_simps:
  "linear_layers [] = []"
  "linear_layers (Linear l # ms) = l # linear_layers ms"
  "linear_layers (Activation # ms) = linear_layers ms"
  "linear_layers (BatchNorm1d b # ms) = linear_layers ms"
  by (simp_all add: linear_layers_def map_filter_def)

lemma linear_layers_append_block:
  "length (linear_layers (append_block init use_bias bn n_in n_out ms))
     = Suc (length (linear_layers ms))"
  by (simp add: append_block_def Let_def linear_layers_append linear_layers_simps
      nn_Linear_def nn_BatchNorm1d_def)

lemma linear_layers_hidden_blocks:
  "length (linear_layers (hidden_blocks init use_bias bn h n ms))
     = n + length (linear_layers ms)"
  by (induction n arbitrary: ms) (simp_all add: linear_layers_append_block)

text \<open>
  Claim C5 states that the model has \<open>n_hidden + 1\<close> affine layers, and \<open>n_hidden + 2\<close>
  with the penultimate projection. The constructor builds one more: the input layer, one
  layer for each pass of the loop, the projection when it is requested, and the output
  layer, that is \<open>n_hidden + 2\<close> and \<open>n_hidden + 3\<close> \<^verbatim>\<open>Linear\<close> modules, whatever the other
  arguments.
\<close>

theorem Net_init_linear_count:
  "length (linear_layers (sequential
       (Net_init init in_dim out_dim hidden_size n_hidden use_bias penultimate bn)))
     = n_hidden + (if penultimate then 3 else 2)"
  by (simp add: Net_init_def Let_def linear_layers_append_block linear_layers_hidden_blocks
      linear_layers_simps nn_Linear_def)

text \<open>
  \<^verbatim>\<open>Net(2, 1, hidden_size=10, n_hidden=2)\<close> has four affine layers, and five with
  \<^verbatim>\<open>penultimate=True\<close>.
\<close>

lemma Net_init_example:
  "length (linear_layers (sequential (Net_init init_ones 2 1 10 2 False False False))) = 4"
  "length (linear_layers (sequential (Net_init init_ones 2 1 10 2 False True False))) = 5"
  by (simp_all add: Net_init_def Let_def linear_layers_append_block linear_layers_hidden_blocks
      linear_layers_simps nn_Linear_def)

section \<open>The number of points of the generator\<close>

lemma draw_blobs_nonneg:
  "0 \<le> sz \<Longrightarrow>
     draw_blobs draw s sz ms = Inr (concat (map (\<lambda>mean. map (draw mean s) [0..<nat sz]) ms))"
  by (induction ms) (simp_all add: multivariate_normal_def)

lemma draw_blobs_negative:
  "sz < 0 \<Longrightarrow> ms \<noteq> [] \<Longrightarrow> draw_blobs draw s sz ms = Inl ValueError"
  by (cases ms) (simp_all add: multivariate_normal_def)

lemma quarter_nonneg: "0 \<le> n \<Longrightarrow> quarter n = n div 4"
  by (simp add: quarter_def)

lemma length_concat_const:
  "(\<And>x. x \<in> set xs \<Longrightarrow> length (f x) = k) \<Longrightarrow> length (concat (map f xs)) = length xs * k"
  by (induction xs) simp_all

lemma generate_gaussian_parity_nonneg:
  assumes "0 \<le> n"
  shows "generate_gaussian_parity draw n s (Some a) =
           Inr (map (rotate_deg a)
                  (concat (map (\<lambda>mean. map (draw mean s) [0..<nat (n div 4)]) means)),
                concat (map (\<lambda>i. replicate (nat (n div 4)) (component_label i))
                         [0..<length means]))"
proof -
  have "0 \<le> quarter n" using assms by (simp add: quarter_nonneg)
  then show ?thesis
    using assms by (simp add: generate_gaussian_parity_def draw_blobs_nonneg quarter_nonneg)
qed

text \<open>
  Claim C6, as amended. The generator does not validate \<open>n\<close>: for every \<open>n \<ge> 0\<close> (and an
  angle) it returns \<open>4 * (n div 4)\<close> points and as many labels, without an error. So it
  returns exactly \<open>n\<close> points when \<open>n\<close> is a multiple of \<open>4\<close>, and fewer otherwise.
\<close>

theorem generate_gaussian_parity_count:
  assumes "0 \<le> n"
  shows "\<exists>X Y. generate_gaussian_parity draw n s (Some a) = Inr (X, Y)
           \<and> length X = 4 * nat (n div 4) \<and> length Y = length X
           \<and> (n mod 4 = 0 \<longrightarrow> int (length X) = n)"
proof -
  let ?k = "nat (n div 4)"
  let ?X = "map (rotate_deg a) (concat (map (\<lambda>mean. map (draw mean s) [0..<?k]) means))"
  let ?Y = "concat (map (\<lambda>i. replicate ?k (component_label i)) [0..<length means])"
  have r: "generate_gaussian_parity draw n s (Some a) = Inr (?X, ?Y)"
    by (rule generate_gaussian_parity_nonneg [OF assms])
  have lx: "length ?X = 4 * ?k"
    by (simp add: length_concat_const means_def)
  have ly: "length ?Y = 4 * ?k"
    by (simp add: length_concat_const means_def)
  have "n mod 4 = 0 \<longrightarrow> int (4 * ?k) = n"
    using assms by auto
  with r lx ly show ?thesis by (metis (no_types, lifting))
qed

text \<open>The theorem at \<open>n = 8\<close>: eight points.\<close>

theorem generate_gaussian_parity_count_witness:
  "n_points (generate_gaussian_parity draw_mean 8 1 (Some 0)) = Some 8"
  using generate_gaussian_parity_count [of 8 draw_mean 1 0]
  by (auto simp: n_points_def)

text \<open>
  The claim as stated (a count that is no positive multiple of \<open>4\<close> is refused, nothing
  is truncated) fails at \<open>n = 5\<close>: the call returns, with four points.
\<close>

theorem generate_gaussian_parity_truncates:
  "n_points (generate_gaussian_parity draw_mean 5 1 (Some 0)) = Some 4"
  by (simp add: n_points_def generate_gaussian_parity_nonneg length_concat_const means_def)

text \<open>
  Neither is \<open>n = 0\<close> refused. A negative count raises only from \<open>- 4\<close> downwards, where
  NumPy refuses the negative size.
\<close>

lemma generate_gaussian_parity_zero:
  "n_points (generate_gaussian_parity draw_mean 0 1 (Some 0)) = Some 0"
  by (simp add: n_points_def generate_gaussian_parity_nonneg length_concat_const means_def)

lemma generate_gaussian_parity_negative:
  assumes "n \<le> - 4"
  shows "generate_gaussian_parity draw n s a = Inl ValueError"
proof -
  have "quarter n < 0" using assms by (simp add: quarter_def)
  moreover have "means \<noteq> []" by (simp add: means_def)
  ultimately have "draw_blobs draw s (quarter n) means = Inl ValueError"
    by (rule draw_blobs_negative)
  then show ?thesis
    by (simp add: generate_gaussian_parity_def)
qed

section \<open>Properties of the Gini impurity\<close>

lemma gini_impurity_value:
  "P1 + P2 \<noteq> 0 \<Longrightarrow> gini_impurity P1 P2 = Inr (2 * (P1 / (P1 + P2)) * (P2 / (P1 + P2)))"
  by (simp add: gini_impurity_def Let_def)

lemma gini_gap:
  fixes a b :: real
  assumes "a + b \<noteq> 0"
  shows "1 / 2 - 2 * (a / (a + b)) * (b / (a + b)) = (a - b)\<^sup>2 / (2 * (a + b)\<^sup>2)"
proof -
  define d where "d = a + b"
  have d: "d \<noteq> 0" using assms by (simp add: d_def)
  have e1: "2 * (a / d) * (b / d) = 2 * a * b / d\<^sup>2"
    by (simp add: power2_eq_square)
  have e2: "1 / 2 - 2 * a * b / d\<^sup>2 = (d\<^sup>2 - 4 * a * b) / (2 * d\<^sup>2)"
    using d by (simp add: field_simps)
  have e3: "d\<^sup>2 - 4 * a * b = (a - b)\<^sup>2"
    by (simp add: d_def power2_eq_square algebra_simps)
  have "1 / 2 - 2 * (a / d) * (b / d) = 1 / 2 - 2 * a * b / d\<^sup>2"
    by (simp only: e1)
  also have "\<dots> = (d\<^sup>2 - 4 * a * b) / (2 * d\<^sup>2)" by (rule e2)
  also have "\<dots> = (a - b)\<^sup>2 / (2 * d\<^sup>2)" by (simp only: e3)
  finally show ?thesis unfolding d_def .
qed

text \<open>
  Claim C8. For non-negative counts \<open>P1\<close>, \<open>P2\<close> with \<open>P1 + P2 > 0\<close>,
  \<^verbatim>\<open>gini_impurity(P1, P2)\<close> returns \<open>2 * (P1 / (P1 + P2)) * (P2 / (P1 + P2))\<close>; the value
  lies between \<open>0\<close> and \<open>1/2\<close>, is \<open>1/2\<close> exactly when \<open>P1 = P2\<close>, and is \<open>0\<close>
  whenever one of the counts is \<open>0\<close>.
\<close>

theorem gini_impurity_bounds:
  assumes "0 \<le> P1" and "0 \<le> P2" and "0 < P1 + P2"
  shows "\<exists>g. gini_impurity P1 P2 = Inr g
           \<and> g = 2 * (P1 / (P1 + P2)) * (P2 / (P1 + P2))
           \<and> 0 \<le> g \<and> g \<le> 1 / 2
           \<and> (g = 1 / 2 \<longleftrightarrow> P1 = P2)
           \<and> (P1 = 0 \<or> P2 = 0 \<longrightarrow> g = 0)"
proof -
  define g where "g = 2 * (P1 / (P1 + P2)) * (P2 / (P1 + P2))"
  have nz: "P1 + P2 \<noteq> 0" using assms(3) by simp
  have val: "gini_impurity P1 P2 = Inr g"
    unfolding g_def by (rule gini_impurity_value [OF nz])
  have gap: "1 / 2 - g = (P1 - P2)\<^sup>2 / (2 * (P1 + P2)\<^sup>2)"
    unfolding g_def by (rule gini_gap [OF nz])
  have den: "0 < 2 * (P1 + P2)\<^sup>2" using nz by simp
  have lo: "0 \<le> g"
    unfolding g_def using assms by (intro mult_nonneg_nonneg divide_nonneg_nonneg) simp_all
  have "0 \<le> (P1 - P2)\<^sup>2 / (2 * (P1 + P2)\<^sup>2)" by simp
  then have hi: "g \<le> 1 / 2" using gap by linarith
  have "g = 1 / 2 \<longleftrightarrow> (P1 - P2)\<^sup>2 / (2 * (P1 + P2)\<^sup>2) = 0"
    using gap by linarith
  also have "\<dots> \<longleftrightarrow> (P1 - P2)\<^sup>2 = 0" using den by simp
  also have "\<dots> \<longleftrightarrow> P1 = P2" by simp
  finally have bal: "g = 1 / 2 \<longleftrightarrow> P1 = P2" .
  have pure: "P1 = 0 \<or> P2 = 0 \<longrightarrow> g = 0" by (auto simp: g_def)
  from val lo hi bal pure show ?thesis unfolding g_def by blast
qed

text \<open>
  The theorem at the counts \<open>(3, 1)\<close>, \<open>(2, 2)\<close> and \<open>(0, 5)\<close>: a mixed region, a
  balanced one and a pure one.
\<close>

theorem gini_impurity_bounds_witness:
  "gini_impurity 3 1 = Inr (3 / 8) \<and> gini_impurity 2 2 = Inr (1 / 2) \<and> gini_impurity 0 5 = Inr 0"
proof -
  have a: "gini_impurity 3 1 = Inr (3 / 8)"
    using gini_impurity_bounds [of 3 1] by auto
  have b: "gini_impurity 2 2 = Inr (1 / 2)"
    using gini_impurity_bounds [of 2 2] by auto
  have c: "gini_impurity 0 5 = Inr 0"
    using gini_impurity_bounds [of 0 5] by auto
  show ?thesis using a b c by simp
qed

text \<open>
  Claim C7, as amended. The empty region \<open>P1 + P2 = 0\<close> is not guarded: the computation
  divides by \<open>P1 + P2\<close> whatever its value, and it ends in the division-by-zero branch
  exactly when \<open>P1 + P2 = 0\<close>; no impurity \<open>0\<close> is returned there.
\<close>

theorem gini_impurity_unguarded:
  "gini_impurity P1 P2 = Inl ZeroDivisionError \<longleftrightarrow> P1 + P2 = 0"
  by (simp add: gini_impurity_def Let_def)

text \<open>
  The claim as stated (an empty region is handled by returning \<open>0\<close>, the division by
  zero being unreachable) fails at the default arguments \<open>P1 = 0\<close>, \<open>P2 = 0\<close>.
\<close>

theorem gini_impurity_empty_region: "gini_impurity 0 0 = Inl ZeroDivisionError"
  by (simp add: gini_impurity_def)

section \<open>The mean Gini impurity over the regions of a batch\<close>

text \<open>
  In \<^verbatim>\<open>gini_impurity_mean\<close> every identifier comes from a point of the batch, so every
  region has a member and the division by zero of \<^const>\<open>gini_impurity\<close> is not reached from
  there: for rounded predictions (zeros and ones) of a batch with at least one point, the
  mean is a value between \<open>0\<close> and \<open>1/2\<close>.
\<close>

lemma gini_impurity_range:
  assumes "0 \<le> P1" and "0 \<le> P2" and "0 < P1 + P2"
  shows "\<exists>g. gini_impurity P1 P2 = Inr g \<and> 0 \<le> g \<and> g \<le> 1 / 2"
proof -
  let ?g = "2 * (P1 / (P1 + P2)) * (P2 / (P1 + P2))"
  have nz: "P1 + P2 \<noteq> 0" using assms(3) by simp
  have lo: "0 \<le> ?g"
    using assms by (intro mult_nonneg_nonneg divide_nonneg_nonneg) simp_all
  have "0 \<le> (P1 - P2)\<^sup>2 / (2 * (P1 + P2)\<^sup>2)" by simp
  then have hi: "?g \<le> 1 / 2" using gini_gap [OF nz] by linarith
  from lo hi gini_impurity_value [OF nz] show ?thesis by simp
qed

lemma select_region_nonempty:
  assumes "length predicts = length ms" and "l \<in> set ms"
  shows "select_region predicts ms l \<noteq> []"
proof -
  from assms(2) obtain i where i: "i < length ms" "ms ! i = l"
    by (auto simp: in_set_conv_nth)
  then have "(predicts ! i, l) \<in> set (zip predicts ms)"
    using assms(1) by (auto simp: in_set_zip)
  then have "\<exists>pm \<in> set (zip predicts ms). snd pm = l" by force
  then show ?thesis
    by (simp add: select_region_def filter_empty_conv)
qed

lemma select_region_binary:
  assumes "list_all (\<lambda>v. v = 0 \<or> v = 1) predicts"
  shows "list_all (\<lambda>v. v = 0 \<or> v = 1) (select_region predicts ms l)"
  using assms by (auto simp: select_region_def list_all_iff dest: set_zip_leftD)

lemma binary_sum_bounds:
  assumes "list_all (\<lambda>v. v = 0 \<or> v = (1::real)) xs"
  shows "0 \<le> sum_list xs \<and> sum_list xs \<le> real (length xs)"
  using assms by (induction xs) auto

lemma region_scores_range:
  assumes len: "length predicts = length ms"
    and bin: "list_all (\<lambda>v. v = 0 \<or> v = 1) predicts"
    and sub: "set ls \<subseteq> set ms"
  shows "\<exists>gs. region_scores ms predicts ls = Inr gs \<and> length gs = length ls
           \<and> list_all (\<lambda>g. 0 \<le> g \<and> g \<le> 1 / 2) gs"
  using sub
proof (induction ls)
  case Nil
  then show ?case by simp
next
  case (Cons l ls)
  let ?cur = "select_region predicts ms l"
  have ne: "?cur \<noteq> []" using Cons.prems by (intro select_region_nonempty [OF len]) simp
  have b: "0 \<le> sum_list ?cur \<and> sum_list ?cur \<le> real (length ?cur)"
    by (rule binary_sum_bounds [OF select_region_binary [OF bin]])
  have pos: "0 < sum_list ?cur + (real (length ?cur) - sum_list ?cur)" using ne by simp
  from gini_impurity_range [OF _ _ pos] b obtain g where
    g: "gini_impurity (sum_list ?cur) (real (length ?cur) - sum_list ?cur) = Inr g"
    "0 \<le> g" "g \<le> 1 / 2" by auto
  from Cons obtain gs where
    gs: "region_scores ms predicts ls = Inr gs" "length gs = length ls"
    "list_all (\<lambda>g. 0 \<le> g \<and> g \<le> 1 / 2) gs" by auto
  show ?case using g gs by (simp add: Let_def)
qed

lemma gini_impurity_mean_range:
  assumes len: "length predicts = length ms" and ne: "ms \<noteq> []"
    and bin: "list_all (\<lambda>v. v = 0 \<or> v = 1) predicts"
  shows "\<exists>g. gini_impurity_mean ms predicts = Inr g \<and> 0 \<le> g \<and> g \<le> 1 / 2"
proof -
  have s: "set (np_unique ms) = set ms" by (simp add: np_unique_def)
  from region_scores_range [OF len bin, of "np_unique ms"] s obtain gs where
    gs: "region_scores ms predicts (np_unique ms) = Inr gs" "length gs = length (np_unique ms)"
    "list_all (\<lambda>g. 0 \<le> g \<and> g \<le> 1 / 2) gs" by auto
  have "np_unique ms \<noteq> []" using s ne by (metis set_empty)
  with gs(2) have gne: "gs \<noteq> []" by auto
  have "0 \<le> sum_list gs \<and> sum_list gs \<le> real (length gs) * (1 / 2)"
    using gs(3) by (induction gs) (auto simp: algebra_simps)
  then have "0 \<le> sum_list gs / real (length gs) \<and> sum_list gs / real (length gs) \<le> 1 / 2"
    using gne by (simp add: field_simps)
  then show ?thesis
    using gs(1) gne len by (simp add: gini_impurity_mean_def np_mean_def)
qed

text \<open>For a batch without points there is no region, and the mean is \<^verbatim>\<open>nan\<close>.\<close>

lemma gini_impurity_mean_no_points: "gini_impurity_mean [] [] = Inl NotANumber"
  by (simp add: gini_impurity_mean_def np_unique_def np_mean_def)

section \<open>The Bayes posterior against the labels of the generator\<close>

lemma quad_form_unit:
  "quad_form (sub2 x mu) (inv2 (scale2 1 eye2)) = (fst x - fst mu)\<^sup>2 + (snd x - snd mu)\<^sup>2"
  by (simp add: quad_form_def sub2_def inv2_def scale2_def eye2_def det2_def power2_eq_square)

lemma det_unit: "2 * pi * sqrt (det2 (scale2 1 eye2)) = 2 * pi"
  by (simp add: scale2_def eye2_def det2_def)

lemma ratio_cancel:
  fixes a b z :: real
  assumes "z \<noteq> 0"
  shows "(a / z) / (b / z + a / z) = a / (b + a)"
    and "(b / z) / (b / z + a / z) = b / (b + a)"
proof -
  have s: "b / z + a / z = (b + a) / z" by (simp add: add_divide_distrib)
  show "(a / z) / (b / z + a / z) = a / (b + a)" unfolding s using assms by simp
  show "(b / z) / (b / z + a / z) = b / (b + a)" unfolding s using assms by simp
qed

lemma pdf_value:
  "pdf x =
     [(kern x (- 1, 1) + kern x (1, - 1))
        / (kern x (- 1, - 1) + kern x (1, 1) + (kern x (- 1, 1) + kern x (1, - 1))),
      (kern x (- 1, - 1) + kern x (1, 1))
        / (kern x (- 1, - 1) + kern x (1, 1) + (kern x (- 1, 1) + kern x (1, - 1)))]"
proof -
  have z: "2 * pi \<noteq> 0" by simp
  show ?thesis
    unfolding pdf_def Let_def quad_form_unit det_unit kern_def
    by (simp only: ratio_cancel [OF z])
qed

lemma pdf_at_1_1:
  "pdf (1, 1) = [2 * exp (- 4) / (exp (- 8) + 1 + 2 * exp (- 4)),
                 (exp (- 8) + 1) / (exp (- 8) + 1 + 2 * exp (- 4))]"
  by (simp add: pdf_value kern_def)

lemma spec_posterior_at_1_1:
  "spec_posterior_label1 1 (1, 1) = (exp (- 4) + 1) / (exp (- 4) + 1 + 2 * exp (- 2))"
proof -
  have i4: "[0..<4] = [0, 1, 2, 3]" by (simp add: upt_rec)
  have d0: "spec_gaussian_density 1 (- 1, - 1) (1, 1) = exp (- 4) / (2 * pi)"
    and d1: "spec_gaussian_density 1 (1, 1) (1, 1) = 1 / (2 * pi)"
    and d2: "spec_gaussian_density 1 (1, - 1) (1, 1) = exp (- 2) / (2 * pi)"
    and d3: "spec_gaussian_density 1 (- 1, 1) (1, 1) = exp (- 2) / (2 * pi)"
    by (simp_all add: spec_gaussian_density_def)
  have num: "sum_list (map (\<lambda>i. spec_gaussian_density 1 (means ! i) (1, 1))
                (filter (\<lambda>i. component_label i = 1) [0..<length means]))
             = (exp (- 4) + 1) / (2 * pi)"
    by (simp add: means_def i4 component_label_def d0 d1 add_divide_distrib)
  have den: "sum_list (map (\<lambda>i. spec_gaussian_density 1 (means ! i) (1, 1)) [0..<length means])
             = (exp (- 4) + 1 + 2 * exp (- 2)) / (2 * pi)"
    by (simp add: means_def i4 d0 d1 d2 d3 add_divide_distrib)
  have z: "2 * pi \<noteq> 0" by simp
  have "(a / z) / (b / z) = a / b" if "z \<noteq> 0" for a b z :: real
    using that by simp
  from this [OF z] show ?thesis
    unfolding spec_posterior_label1_def num den by (simp only:)
qed

lemma exp_minus_bound:
  fixes x :: real
  assumes "0 \<le> x"
  shows "exp (- x) \<le> 1 / (1 + x)" and "0 < exp (- x)"
proof -
  have "1 + x \<le> exp x" by (rule exp_ge_add_one_self)
  moreover have "0 < 1 + x" using assms by simp
  ultimately have "1 / exp x \<le> 1 / (1 + x)" by (simp add: frac_le)
  then show "exp (- x) \<le> 1 / (1 + x)" by (simp add: exp_minus inverse_eq_divide)
  show "0 < exp (- x)" by simp
qed

lemma half_bounds:
  fixes a b c :: real
  assumes "0 < a" and "0 < b" and "c \<le> 1 / 3" and "0 < c"
  shows "2 * c / (a + 1 + 2 * c) < 1 / 2" and "1 / 2 < (b + 1) / (b + 1 + 2 * c)"
proof -
  have "2 * (2 * c) < a + 1 + 2 * c" using assms by linarith
  moreover have "0 < a + 1 + 2 * c" using assms by linarith
  ultimately show "2 * c / (a + 1 + 2 * c) < 1 / 2" by (simp add: field_simps)
  have "b + 1 + 2 * c < 2 * b + 2" using assms by linarith
  moreover have "0 < b + 1 + 2 * c" using assms by linarith
  ultimately show "1 / 2 < (b + 1) / (b + 1 + 2 * c)" by (simp add: field_simps)
qed

text \<open>
  The first component of \<^const>\<open>pdf\<close> is the share of the components around \<open>(- 1, 1)\<close>
  and \<open>(1, - 1)\<close>: the ones whose points the generator labels \<open>0\<close>.
\<close>

lemma pdf_first_component:
  "hd (pdf x) =
     sum_list (map (\<lambda>i. kern x (means ! i))
                   (filter (\<lambda>i. component_label i = 0) [0..<length means]))
     / sum_list (map (\<lambda>i. kern x (means ! i)) [0..<length means])"
proof -
  have i4: "[0..<4] = [0, 1, 2, 3]" by (simp add: upt_rec)
  show ?thesis
    by (simp add: pdf_value means_def i4 component_label_def add.commute)
qed

text \<open>
  Claim C1 states that the first component of \<^const>\<open>pdf\<close> is the posterior probability of
  the class that the generator labels \<open>1\<close>. At the centre \<open>(1, 1)\<close>, whose points the
  generator labels \<open>1\<close>, that posterior is above \<open>1/2\<close>, and the first component of
  \<^const>\<open>pdf\<close> is below \<open>1/2\<close>.
\<close>

theorem pdf_label_mismatch:
  "hd (pdf (1, 1)) < 1 / 2 \<and> 1 / 2 < spec_posterior_label1 1 (1, 1)"
proof
  have e4: "exp (- 4) \<le> (1 / 3 :: real)" using exp_minus_bound(1) [of 4] by simp
  have e2: "exp (- 2) \<le> (1 / 3 :: real)" using exp_minus_bound(1) [of 2] by simp
  have "2 * exp (- 4) / (exp (- 8) + 1 + 2 * exp (- 4 :: real)) < 1 / 2"
    by (rule half_bounds(1) [where b = 1, OF _ _ e4]) simp_all
  then show "hd (pdf (1, 1)) < 1 / 2" by (simp only: pdf_at_1_1 list.sel)
  have "1 / 2 < (exp (- 4) + 1) / (exp (- 4) + 1 + 2 * exp (- 2 :: real))"
    by (rule half_bounds(2) [where a = 1, OF _ _ e2]) simp_all
  then show "1 / 2 < spec_posterior_label1 1 (1, 1)" by (simp only: spec_posterior_at_1_1)
qed

section \<open>Bounds of the Hellinger distance\<close>

lemma sq_diff_sqrt:
  fixes a b :: real
  assumes "0 \<le> a" and "0 \<le> b"
  shows "(sqrt a - sqrt b)\<^sup>2 = a + b - 2 * sqrt (a * b)"
proof -
  have "(sqrt a - sqrt b)\<^sup>2 = (sqrt a)\<^sup>2 + (sqrt b)\<^sup>2 - 2 * (sqrt a * sqrt b)"
    by (simp add: power2_diff)
  then show ?thesis using assms by (simp add: real_sqrt_mult)
qed

lemma sum_sq_diff_sqrt:
  assumes "length xs = length ys"
    and "list_all (\<lambda>v. 0 \<le> v) xs" and "list_all (\<lambda>v. 0 \<le> v) ys"
  shows "sum_list (map2 (\<lambda>a b. (sqrt a - sqrt b)\<^sup>2) xs ys)
           = sum_list xs + sum_list ys - 2 * sum_list (map2 (\<lambda>a b. sqrt (a * b)) xs ys)"
  using assms
proof (induction xs ys rule: list_induct2)
  case Nil
  then show ?case by simp
next
  case (Cons x xs y ys)
  then have "(sqrt x - sqrt y)\<^sup>2 = x + y - 2 * sqrt (x * y)"
    by (simp add: sq_diff_sqrt)
  with Cons show ?case by simp
qed

lemma sum_sqrt_prod_nonneg:
  "0 \<le> sum_list (map2 (\<lambda>a b. sqrt (a * b)) xs ys)"
  if "list_all (\<lambda>v. 0 \<le> v) xs" "list_all (\<lambda>v. 0 \<le> v) ys"
  using that
proof (induction xs arbitrary: ys)
  case Nil
  then show ?case by simp
next
  case (Cons x xs)
  then show ?case by (cases ys) simp_all
qed

lemma sum_sq_nonneg: "0 \<le> sum_list (map2 (\<lambda>a b. (sqrt a - sqrt b)\<^sup>2) xs ys)"
proof (induction xs arbitrary: ys)
  case Nil
  then show ?case by simp
next
  case (Cons x xs)
  then show ?case by (cases ys) simp_all
qed

lemma sum_sqrt_prod_disjoint:
  "disjoint_rows xs ys \<Longrightarrow> sum_list (map2 (\<lambda>a b. sqrt (a * b)) xs ys) = 0"
proof (induction xs arbitrary: ys)
  case Nil
  then show ?case by simp
next
  case (Cons x xs)
  then show ?case by (cases ys) (auto simp: disjoint_rows_def)
qed

lemma hellinger_row_sqrt:
  "hellinger_row pr qr = sqrt (sum_list (map2 (\<lambda>a b. (sqrt a - sqrt b)\<^sup>2) pr qr) / 2)"
  by (simp add: hellinger_row_def real_sqrt_divide)

lemma hellinger_row_bounds:
  assumes "length pr = length qr" and "prob_row pr" and "prob_row qr"
  shows "0 \<le> hellinger_row pr qr" and "hellinger_row pr qr \<le> 1"
    and "disjoint_rows pr qr \<Longrightarrow> hellinger_row pr qr = 1"
proof -
  let ?S = "sum_list (map2 (\<lambda>a b. (sqrt a - sqrt b)\<^sup>2) pr qr)"
  let ?B = "sum_list (map2 (\<lambda>a b. sqrt (a * b)) pr qr)"
  have nn: "list_all (\<lambda>v. 0 \<le> v) pr" "list_all (\<lambda>v. 0 \<le> v) qr"
    and one: "sum_list pr = 1" "sum_list qr = 1"
    using assms(2,3) by (simp_all add: prob_row_def)
  have S: "?S = 2 - 2 * ?B"
    using sum_sq_diff_sqrt [OF assms(1) nn] one by simp
  have B: "0 \<le> ?B" by (rule sum_sqrt_prod_nonneg [OF nn])
  have S0: "0 \<le> ?S" by (rule sum_sq_nonneg)
  show "0 \<le> hellinger_row pr qr"
    unfolding hellinger_row_sqrt using S0 by simp
  have "?S / 2 \<le> 1" using S B by simp
  then have "sqrt (?S / 2) \<le> sqrt 1" by (simp only: real_sqrt_le_iff)
  then show "hellinger_row pr qr \<le> 1"
    unfolding hellinger_row_sqrt by simp
  show "hellinger_row pr qr = 1" if "disjoint_rows pr qr"
  proof -
    have "?B = 0" by (rule sum_sqrt_prod_disjoint [OF that])
    then have "?S / 2 = 1" using S by simp
    then show ?thesis unfolding hellinger_row_sqrt by simp
  qed
qed

lemma hellinger_row_same: "hellinger_row pr pr = 0"
proof -
  have "sum_list (map2 (\<lambda>a b. (sqrt a - sqrt b)\<^sup>2) pr pr) = 0"
    by (induction pr) simp_all
  then show ?thesis by (simp add: hellinger_row_def)
qed

lemma np_mean_bounds:
  assumes "v \<noteq> []" and "\<And>x. x \<in> set v \<Longrightarrow> lo \<le> x \<and> x \<le> hi"
  shows "\<exists>m. np_mean v = Inr m \<and> m = sum_list v / real (length v) \<and> lo \<le> m \<and> m \<le> hi"
proof -
  have n: "0 < real (length v)" using assms(1) by simp
  have "sum_list v \<le> hi * real (length v)" using assms(2)
    by (induction v) (auto simp: algebra_simps intro: add_mono)
  then have hi: "sum_list v / real (length v) \<le> hi"
    using n by (simp add: pos_divide_le_eq)
  have "lo * real (length v) \<le> sum_list v" using assms(2)
    by (induction v) (auto simp: algebra_simps intro: add_mono)
  then have lo: "lo \<le> sum_list v / real (length v)"
    using n by (simp add: pos_le_divide_eq)
  show ?thesis using assms(1) lo hi by (simp add: np_mean_def)
qed

lemma prob_row_no_negative: "prob_row r \<Longrightarrow> \<not> list_ex (\<lambda>v. v < 0) r"
  by (auto simp: prob_row_def list_all_iff list_ex_iff)

lemma sum_list_map2_nth:
  fixes f :: "'a \<Rightarrow> 'b \<Rightarrow> real"
  assumes "length xs = length ys"
  shows "sum_list (map2 f xs ys) = (\<Sum>i<length xs. f (xs ! i) (ys ! i))"
proof -
  have "sum_list (map2 f xs ys) = (\<Sum>i = 0..<length xs. map2 f xs ys ! i)"
    using assms by (simp add: sum_list_sum_nth)
  also have "\<dots> = (\<Sum>i = 0..<length xs. f (xs ! i) (ys ! i))"
    using assms by (intro sum.cong) simp_all
  finally show ?thesis by (simp add: atLeast0LessThan)
qed

lemma hellinger_row_nth:
  assumes "length pr = length qr"
  shows "hellinger_row pr qr = sqrt (\<Sum>i<length pr. (sqrt (pr ! i) - sqrt (qr ! i))\<^sup>2) / sqrt 2"
  unfolding hellinger_row_def by (simp only: sum_list_map2_nth [OF assms])

text \<open>
  Claim C9. For arrays \<open>p\<close>, \<open>q\<close> of the same shape, with at least one row, whose rows are
  discrete probability vectors, \<^verbatim>\<open>hellinger_explicit(p, q)\<close> is the average over the rows of
  \<open>sqrt (\<Sum>i. (sqrt p\<^sub>i - sqrt q\<^sub>i)\<^sup>2) / sqrt 2\<close>; it lies between \<open>0\<close> and \<open>1\<close>, is \<open>0\<close> when
  \<open>p = q\<close>, and is \<open>1\<close> when the rows of \<open>p\<close> and \<open>q\<close> have disjoint supports.
\<close>

theorem hellinger_explicit_bounds:
  assumes ne: "p \<noteq> []"
    and shape: "map length p = map length q"
    and pp: "list_all prob_row p" and pq: "list_all prob_row q"
  shows "\<exists>h. hellinger_explicit p q = Inr h
           \<and> h = (\<Sum>j<length p.
                    sqrt (\<Sum>i<length (p ! j). (sqrt (p ! j ! i) - sqrt (q ! j ! i))\<^sup>2) / sqrt 2)
                  / real (length p)
           \<and> 0 \<le> h \<and> h \<le> 1
           \<and> (p = q \<longrightarrow> h = 0)
           \<and> (list_all2 disjoint_rows p q \<longrightarrow> h = 1)"
proof -
  let ?rows = "map2 hellinger_row p q"
  have len: "length p = length q" using shape by (rule map_eq_imp_length_eq)
  have row_len: "length (p ! j) = length (q ! j)" if "j < length p" for j
  proof -
    have "map length p ! j = map length q ! j" by (simp only: shape)
    then show ?thesis using that len by simp
  qed
  have rp: "prob_row (p ! j)" if "j < length p" for j
    using pp that by (simp add: list_all_length)
  have rq: "prob_row (q ! j)" if "j < length p" for j
    using pq that len by (simp add: list_all_length)
  have "prob_row r" if "r \<in> set (p @ q)" for r
    using that pp pq by (auto simp: list_all_iff)
  then have "\<not> list_ex (\<lambda>v. v < 0) r" if "r \<in> set (p @ q)" for r
    using that by (intro prob_row_no_negative)
  then have noneg: "\<not> list_ex (list_ex (\<lambda>v. v < 0)) (p @ q)"
    unfolding list_ex_iff [of _ "p @ q"] by blast
  have he: "hellinger_explicit p q = np_mean ?rows"
    using shape noneg by (simp add: hellinger_explicit_def)
  have rows_ne: "?rows \<noteq> []" using ne len by (cases p; cases q) simp_all
  have rows_len: "length ?rows = length p" using len by simp
  have rows_nth: "?rows ! j = hellinger_row (p ! j) (q ! j)" if "j < length p" for j
    using that len by simp
  have in01: "0 \<le> x \<and> x \<le> 1" if "x \<in> set ?rows" for x
  proof -
    from that obtain j where j: "j < length p" and x: "x = ?rows ! j"
      by (metis in_set_conv_nth rows_len)
    show ?thesis
      unfolding x rows_nth [OF j]
      using hellinger_row_bounds(1,2) [OF row_len [OF j] rp [OF j] rq [OF j]] by simp
  qed
  from np_mean_bounds [OF rows_ne in01]
  obtain h where h: "np_mean ?rows = Inr h" and hv: "h = sum_list ?rows / real (length ?rows)"
    and h0: "0 \<le> h" and h1: "h \<le> 1" by blast
  have "sum_list ?rows = (\<Sum>j<length p. ?rows ! j)"
    using rows_len by (simp add: sum_list_sum_nth atLeast0LessThan)
  also have "\<dots> = (\<Sum>j<length p.
       sqrt (\<Sum>i<length (p ! j). (sqrt (p ! j ! i) - sqrt (q ! j ! i))\<^sup>2) / sqrt 2)"
    by (intro sum.cong refl) (simp only: lessThan_iff rows_nth hellinger_row_nth [OF row_len])
  finally have formula: "h = (\<Sum>j<length p.
       sqrt (\<Sum>i<length (p ! j). (sqrt (p ! j ! i) - sqrt (q ! j ! i))\<^sup>2) / sqrt 2)
       / real (length p)"
    using hv rows_len by simp
  have same: "h = 0" if "p = q"
  proof -
    have "0 \<le> x \<and> x \<le> 0" if "x \<in> set ?rows" for x
    proof -
      from that obtain j where j: "j < length p" and x: "x = ?rows ! j"
        by (metis in_set_conv_nth rows_len)
      show ?thesis unfolding x rows_nth [OF j] using \<open>p = q\<close> by (simp add: hellinger_row_same)
    qed
    from np_mean_bounds [OF rows_ne this] h show ?thesis by auto
  qed
  have disj: "h = 1" if d: "list_all2 disjoint_rows p q"
  proof -
    have "1 \<le> x \<and> x \<le> 1" if "x \<in> set ?rows" for x
    proof -
      from that obtain j where j: "j < length p" and x: "x = ?rows ! j"
        by (metis in_set_conv_nth rows_len)
      have "disjoint_rows (p ! j) (q ! j)" using d j by (simp add: list_all2_conv_all_nth)
      then show ?thesis
        unfolding x rows_nth [OF j]
        using hellinger_row_bounds(3) [OF row_len [OF j] rp [OF j] rq [OF j]] by simp
    qed
    from np_mean_bounds [OF rows_ne this] h show ?thesis by auto
  qed
  from he h formula h0 h1 same disj show ?thesis by auto
qed

text \<open>
  The theorem at two arrays with disjoint supports in every row, and at two equal arrays.
\<close>

theorem hellinger_explicit_bounds_witness:
  "hellinger_explicit [[1, 0], [0, 1]] [[0, 1], [1, 0]] = Inr 1
   \<and> hellinger_explicit [[1 / 2, 1 / 2], [1, 0]] [[1 / 2, 1 / 2], [1, 0]] = Inr 0"
proof
  show "hellinger_explicit [[1, 0], [0, 1]] [[0, 1], [1, 0]] = Inr 1"
    using hellinger_explicit_bounds [of "[[1, 0], [0, 1]]" "[[0, 1], [1, 0]]"]
    by (auto simp: prob_row_def disjoint_rows_def)
  show "hellinger_explicit [[1 / 2, 1 / 2], [1, 0]] [[1 / 2, 1 / 2], [1, 0]] = Inr 0"
    using hellinger_explicit_bounds [of "[[1 / 2, 1 / 2], [1, 0]]" "[[1 / 2, 1 / 2], [1, 0]]"]
    by (auto simp: prob_row_def)
qed

text \<open>Without rows there is nothing to average: the mean is \<^verbatim>\<open>nan\<close>.\<close>

lemma hellinger_explicit_no_rows: "hellinger_explicit [] [] = Inl NotANumber"
  by (simp add: hellinger_explicit_def np_mean_def)

section \<open>The loop over the affine layers\<close>

text \<open>The loop over a concatenation runs the two parts in turn.\<close>

lemma layer_loop_append:
  "layer_loop n pen (xs @ ys) st =
     (case layer_loop n pen xs st of Inl e \<Rightarrow> Inl e | Inr st' \<Rightarrow> layer_loop n pen ys st')"
  by (induction xs arbitrary: st) (simp_all split: sum.splits)

lemma is_last_conv: "(int i = int n - 1) \<longleftrightarrow> (Suc i = n)"
  by auto

text \<open>What one pass of the loop body leaves in the state, when it raises nothing.\<close>

lemma layer_step_Inr:
  assumes "layer_step n pen il st = Inr st'"
  shows "\<exists>pre. preactivation_of (snd il) (last_activations st) = Inr pre
           \<and> polytope_memberships st' =
               polytope_memberships st @ [gt_mask (if Suc (fst il) = n then 1 / 2 else 0) pre]
           \<and> last_activations st' =
               mask_mult pre (gt_mask (if Suc (fst il) = n then 1 / 2 else 0) pre)
           \<and> penultimate_act st' =
               (if pen \<and> Suc (fst il) = n then Some (last_activations st')
                else penultimate_act st)"
  using assms
  by (auto simp: layer_step_def Let_def is_last_conv split: sum.splits if_splits)

lemma layer_loop_memberships:
  assumes "layer_loop n pen xs st = Inr st'"
  shows "\<exists>ms. polytope_memberships st' = polytope_memberships st @ ms \<and> length ms = length xs"
  using assms
proof (induction xs arbitrary: st)
  case Nil
  then show ?case by simp
next
  case (Cons il xs)
  from Cons.prems obtain st1 where s1: "layer_step n pen il st = Inr st1"
    and rest: "layer_loop n pen xs st1 = Inr st'"
    by (auto split: sum.splits)
  from layer_step_Inr [OF s1] obtain m where
    m: "polytope_memberships st1 = polytope_memberships st @ [m]" by blast
  from Cons.IH [OF rest] obtain ms where
    ms: "polytope_memberships st' = polytope_memberships st1 @ ms" "length ms = length xs"
    by blast
  show ?case using m ms by simp
qed

lemma enumerate_split:
  assumes "i < length layers"
  shows "enumerate 0 layers =
           take i (enumerate 0 layers) @ (i, layers ! i) # drop (Suc i) (enumerate 0 layers)"
proof -
  have "i < length (enumerate 0 layers)" using assms by simp
  from id_take_nth_drop [OF this] show ?thesis using assms by (simp add: nth_enumerate_eq)
qed

text \<open>
  A run of the whole loop that raises nothing passes through layer \<open>i\<close>: the first \<open>i\<close>
  passes, the pass for \<open>layers ! i\<close>, and the remaining ones.
\<close>

lemma run_layers_split:
  assumes run: "run_layers layers train_x pen = Inr st" and i: "i < length layers"
  shows "\<exists>st_i st_i'.
           layer_loop (length layers) pen (take i (enumerate 0 layers)) (initial_state train_x)
             = Inr st_i
         \<and> length (polytope_memberships st_i) = i
         \<and> layer_step (length layers) pen (i, layers ! i) st_i = Inr st_i'
         \<and> layer_loop (length layers) pen (drop (Suc i) (enumerate 0 layers)) st_i' = Inr st"
proof -
  let ?n = "length layers" and ?e = "enumerate 0 layers"
  have "layer_loop ?n pen (take i ?e @ (i, layers ! i) # drop (Suc i) ?e) (initial_state train_x)
          = Inr st"
    using run enumerate_split [OF i] by (simp add: run_layers_def)
  then obtain st_i st_i' where
    a: "layer_loop ?n pen (take i ?e) (initial_state train_x) = Inr st_i"
    and b: "layer_step ?n pen (i, layers ! i) st_i = Inr st_i'"
    and c: "layer_loop ?n pen (drop (Suc i) ?e) st_i' = Inr st"
    by (auto simp: layer_loop_append split: sum.splits)
  from layer_loop_memberships [OF a] i
  have "length (polytope_memberships st_i) = i"
    by (auto simp: initial_state_def)
  with a b c show ?thesis by blast
qed

lemma get_polytopes_Inr:
  assumes "get_polytopes model train_x pen = Inr r"
  shows "\<exists>st bits. run_layers (linear_layers (sequential model)) train_x pen = Inr st
           \<and> concatenate_axis1 (polytope_memberships st) = Inr bits
           \<and> r = ([tensordot1 bits (pow2_arange (n_columns bits))],
                    if pen then penultimate_act st else Some (last_activations st))"
  using assms by (auto simp: get_polytopes_def Let_def split: sum.splits if_splits)

lemma run_layers_length:
  assumes "run_layers layers train_x pen = Inr st"
  shows "length (polytope_memberships st) = length layers"
  using layer_loop_memberships [OF assms [unfolded run_layers_def]]
  by (auto simp: initial_state_def)

section \<open>The thresholds of the masks\<close>

text \<open>The entries of a product with the transposed weight, and of a preactivation.\<close>

lemma sum_list_map2_min:
  fixes f :: "'a \<Rightarrow> 'b \<Rightarrow> real"
  shows "sum_list (map2 f xs ys) = (\<Sum>i<min (length xs) (length ys). f (xs ! i) (ys ! i))"
proof -
  have "sum_list (map2 f xs ys) = (\<Sum>i = 0..<length (map2 f xs ys). map2 f xs ys ! i)"
    by (rule sum_list_sum_nth)
  also have "\<dots> = (\<Sum>i = 0..<min (length xs) (length ys). f (xs ! i) (ys ! i))"
    by (intro sum.cong) simp_all
  finally show ?thesis by (simp add: atLeast0LessThan)
qed

lemma dot_sum: "dot a w = (\<Sum>k<min (length a) (length w). a ! k * w ! k)"
  unfolding dot_def by (rule sum_list_map2_min)

lemma preactivation_of_entries:
  assumes "preactivation_of l a = Inr pre"
  shows "\<exists>b. bias l = Some b \<and> length pre = length a
           \<and> (\<forall>r<length a.
                 length (pre ! r) = min (length (weight l)) (length b)
               \<and> (\<forall>u<length (pre ! r).
                     pre ! r ! u =
                       (\<Sum>k<min (length (a ! r)) (length (weight l ! u)).
                          a ! r ! k * weight l ! u ! k) + b ! u))"
proof -
  from assms obtain b where b: "bias l = Some b"
    and pre: "pre = map (\<lambda>row. map2 (+) row b) (matmul_T a (weight l))"
    by (auto simp: preactivation_of_def split: option.splits if_splits)
  have len: "length pre = length a" by (simp add: pre matmul_T_def)
  have row: "pre ! r = map2 (+) (map (dot (a ! r)) (weight l)) b" if "r < length a" for r
    using that by (simp add: pre matmul_T_def)
  have "length (pre ! r) = min (length (weight l)) (length b)
      \<and> (\<forall>u<length (pre ! r).
            pre ! r ! u = (\<Sum>k<min (length (a ! r)) (length (weight l ! u)).
                             a ! r ! k * weight l ! u ! k) + b ! u)"
    if r: "r < length a" for r
    unfolding row [OF r] by (simp add: dot_sum)
  with b len show ?thesis by blast
qed

text \<open>The entries of a mask and of the masked preactivation.\<close>

lemma gt_mask_entries:
  "length (gt_mask t pre) = length pre
   \<and> (\<forall>r<length pre. length (gt_mask t pre ! r) = length (pre ! r)
        \<and> (\<forall>u<length (pre ! r). gt_mask t pre ! r ! u = (if t < pre ! r ! u then 1 else 0)))"
  by (simp add: gt_mask_def)

lemma mask_mult_entries:
  "length (mask_mult pre (gt_mask t pre)) = length pre
   \<and> (\<forall>r<length pre. length (mask_mult pre (gt_mask t pre) ! r) = length (pre ! r)
        \<and> (\<forall>u<length (pre ! r).
              mask_mult pre (gt_mask t pre) ! r ! u
                = pre ! r ! u * (if t < pre ! r ! u then 1 else 0)))"
  by (simp add: mask_mult_def gt_mask_def)

text \<open>
  One pass of the loop body computes what \<^const>\<open>pass_spec\<close> states, with the threshold
  \<open>1/2\<close> in the last pass and \<open>0\<close> before; so does every pass of a run of the loop.
\<close>

lemma layer_step_pass_spec:
  assumes "layer_step n pen (k, l) st = Inr st'"
  shows "\<exists>pre m. polytope_memberships st' = polytope_memberships st @ [m]
           \<and> pass_spec (if Suc k = n then 1 / 2 else 0) l (last_activations st) pre m
                (last_activations st')"
proof -
  let ?t = "if Suc k = n then 1 / 2 else (0::real)"
  from layer_step_Inr [OF assms] obtain pre where
    p: "preactivation_of l (last_activations st) = Inr pre"
    and m: "polytope_memberships st' = polytope_memberships st @ [gt_mask ?t pre]"
    and a: "last_activations st' = mask_mult pre (gt_mask ?t pre)"
    by auto
  from preactivation_of_entries [OF p] obtain b where
    b: "bias l = Some b" and len: "length pre = length (last_activations st)"
    and ent: "\<forall>r<length (last_activations st).
        length (pre ! r) = min (length (weight l)) (length b)
      \<and> (\<forall>u<length (pre ! r).
            pre ! r ! u = (\<Sum>k<min (length (last_activations st ! r)) (length (weight l ! u)).
                             last_activations st ! r ! k * weight l ! u ! k) + b ! u)"
    by blast
  have "pass_spec ?t l (last_activations st) pre (gt_mask ?t pre) (mask_mult pre (gt_mask ?t pre))"
    unfolding pass_spec_def
    using b len ent gt_mask_entries [of ?t pre] mask_mult_entries [of pre ?t]
    by (intro exI [of _ b]) simp
  with m a show ?thesis by auto
qed

lemma layer_loop_trace:
  assumes "layer_loop n pen (enumerate k ls) st = Inr st'"
  shows "\<exists>acts pres ms.
           length acts = Suc (length ls) \<and> length pres = length ls \<and> length ms = length ls
         \<and> acts ! 0 = last_activations st
         \<and> acts ! length ls = last_activations st'
         \<and> polytope_memberships st' = polytope_memberships st @ ms
         \<and> (\<forall>j<length ls.
               pass_spec (if Suc (k + j) = n then 1 / 2 else 0) (ls ! j)
                 (acts ! j) (pres ! j) (ms ! j) (acts ! Suc j))"
  using assms
proof (induction ls arbitrary: k st)
  case Nil
  then show ?case by (intro exI [of _ "[last_activations st]"] exI [of _ "[]"]) simp
next
  case (Cons l ls)
  from Cons.prems obtain st1 where s1: "layer_step n pen (k, l) st = Inr st1"
    and rest: "layer_loop n pen (enumerate (Suc k) ls) st1 = Inr st'"
    by (auto split: sum.splits)
  from layer_step_pass_spec [OF s1] obtain pre m where
    m: "polytope_memberships st1 = polytope_memberships st @ [m]"
    and sp: "pass_spec (if Suc k = n then 1 / 2 else 0) l (last_activations st) pre m
        (last_activations st1)"
    by blast
  from Cons.IH [OF rest] obtain acts pres ms where
    la: "length acts = Suc (length ls)" and lp: "length pres = length ls"
    and lm: "length ms = length ls"
    and a0: "acts ! 0 = last_activations st1"
    and an: "acts ! length ls = last_activations st'"
    and pm: "polytope_memberships st' = polytope_memberships st1 @ ms"
    and all: "\<forall>j<length ls.
        pass_spec (if Suc (Suc k + j) = n then 1 / 2 else 0) (ls ! j)
          (acts ! j) (pres ! j) (ms ! j) (acts ! Suc j)"
    by blast
  let ?acts = "last_activations st # acts" and ?pres = "pre # pres" and ?ms = "m # ms"
  have "pass_spec (if Suc (k + j) = n then 1 / 2 else 0) ((l # ls) ! j)
          (?acts ! j) (?pres ! j) (?ms ! j) (?acts ! Suc j)"
    if j: "j < length (l # ls)" for j
  proof (cases j)
    case 0
    then show ?thesis using sp a0 by simp
  next
    case (Suc j')
    with j have "j' < length ls" by simp
    with all have "pass_spec (if Suc (Suc k + j') = n then 1 / 2 else 0) (ls ! j')
          (acts ! j') (pres ! j') (ms ! j') (acts ! Suc j')" by blast
    then show ?thesis using Suc by simp
  qed
  then have "\<forall>j<length (l # ls).
      pass_spec (if Suc (k + j) = n then 1 / 2 else 0) ((l # ls) ! j)
        (?acts ! j) (?pres ! j) (?ms ! j) (?acts ! Suc j)" by blast
  moreover have "length ?acts = Suc (length (l # ls))" "length ?pres = length (l # ls)"
    "length ?ms = length (l # ls)" "?acts ! 0 = last_activations st"
    "?acts ! length (l # ls) = last_activations st'"
    "polytope_memberships st' = polytope_memberships st @ ?ms"
    using la lp lm an pm m by simp_all
  ultimately show ?case by blast
qed

text \<open>
  Claim C3. Whenever \<^verbatim>\<open>get_polytopes\<close> returns, the loop has computed, for every affine
  layer \<open>i\<close>, a mask whose entry for the point \<open>r\<close> and the unit \<open>u\<close> is \<open>1\<close> if the
  preactivation of that point and unit exceeds the threshold and \<open>0\<close> otherwise, where the
  threshold is \<open>1/2\<close> for the last layer and \<open>0\<close> for every other layer. The preactivation
  of layer \<open>i\<close> is the sum over \<open>k\<close> of the activations that enter the layer times the
  weight of the unit, plus the bias of the unit; the activations that enter layer \<open>0\<close> are
  the batch, and those that enter layer \<open>i + 1\<close> are the preactivation of layer \<open>i\<close> times
  its mask. The identifiers returned are computed from these masks.
\<close>

theorem get_polytopes_thresholds:
  assumes ok: "get_polytopes model train_x penultimate = Inr res"
    and layers: "layers = linear_layers (sequential model)"
  shows "\<exists>st acts pres bits.
           run_layers layers train_x penultimate = Inr st
         \<and> concatenate_axis1 (polytope_memberships st) = Inr bits
         \<and> res = ([tensordot1 bits (pow2_arange (n_columns bits))],
                  if penultimate then penultimate_act st else Some (last_activations st))
         \<and> length (polytope_memberships st) = length layers
         \<and> length acts = Suc (length layers) \<and> length pres = length layers
         \<and> acts ! 0 = train_x
         \<and> acts ! length layers = last_activations st
         \<and> (\<forall>i<length layers. \<exists>b.
               bias (layers ! i) = Some b
             \<and> length (pres ! i) = length (acts ! i)
             \<and> length (polytope_memberships st ! i) = length (acts ! i)
             \<and> length (acts ! Suc i) = length (acts ! i)
             \<and> (\<forall>r<length (acts ! i).
                   length (pres ! i ! r) = min (length (weight (layers ! i))) (length b)
                 \<and> length (polytope_memberships st ! i ! r) = length (pres ! i ! r)
                 \<and> length (acts ! Suc i ! r) = length (pres ! i ! r)
                 \<and> (\<forall>u<length (pres ! i ! r).
                       pres ! i ! r ! u =
                         (\<Sum>k<min (length (acts ! i ! r)) (length (weight (layers ! i) ! u)).
                            acts ! i ! r ! k * weight (layers ! i) ! u ! k) + b ! u
                     \<and> polytope_memberships st ! i ! r ! u =
                         (if (if i = length layers - 1 then 1 / 2 else 0) < pres ! i ! r ! u
                          then 1 else 0)
                     \<and> acts ! Suc i ! r ! u =
                         pres ! i ! r ! u *
                         (if (if i = length layers - 1 then 1 / 2 else 0) < pres ! i ! r ! u
                          then 1 else 0))))"
proof -
  let ?n = "length layers"
  from get_polytopes_Inr [OF ok] layers obtain st bits where
    run: "run_layers layers train_x penultimate = Inr st"
    and bits: "concatenate_axis1 (polytope_memberships st) = Inr bits"
    and res: "res = ([tensordot1 bits (pow2_arange (n_columns bits))],
                 if penultimate then penultimate_act st else Some (last_activations st))"
    by blast
  from layer_loop_trace [OF run [unfolded run_layers_def]] obtain acts pres ms where
    la: "length acts = Suc ?n" and lp: "length pres = ?n" and lm: "length ms = ?n"
    and a0: "acts ! 0 = train_x" and an: "acts ! ?n = last_activations st"
    and pm: "polytope_memberships st = ms"
    and all: "\<forall>j<?n. pass_spec (if Suc (0 + j) = ?n then 1 / 2 else 0) (layers ! j)
        (acts ! j) (pres ! j) (ms ! j) (acts ! Suc j)"
    by (auto simp: initial_state_def)
  have thr: "(if Suc (0 + i) = ?n then 1 / 2 else (0::real)) = (if i = ?n - 1 then 1 / 2 else 0)"
    if "i < ?n" for i
    using that by auto
  have "pass_spec (if i = ?n - 1 then 1 / 2 else 0) (layers ! i)
      (acts ! i) (pres ! i) (polytope_memberships st ! i) (acts ! Suc i)" if i: "i < ?n" for i
  proof -
    from all i have "pass_spec (if Suc (0 + i) = ?n then 1 / 2 else 0) (layers ! i)
        (acts ! i) (pres ! i) (ms ! i) (acts ! Suc i)" by blast
    then show ?thesis by (simp only: thr [OF i] pm)
  qed
  then have spec: "\<forall>i<?n. pass_spec (if i = ?n - 1 then 1 / 2 else 0) (layers ! i)
      (acts ! i) (pres ! i) (polytope_memberships st ! i) (acts ! Suc i)" by blast
  show ?thesis
    apply (rule exI [of _ st], rule exI [of _ acts], rule exI [of _ pres], rule exI [of _ bits])
    using run bits res la lp lm a0 an pm spec [unfolded pass_spec_def]
    apply simp
    done
qed

text \<open>The mask is the comparison entry by entry.\<close>

lemma gt_mask_nth:
  "r < length M \<Longrightarrow> u < length (M ! r) \<Longrightarrow>
     gt_mask t M ! r ! u = (if M ! r ! u > t then 1 else 0)"
  by (simp add: gt_mask_def)

text \<open>The network of two unit layers at the input \<open>1/4\<close>.\<close>

lemma two_layer_layers:
  "linear_layers (sequential two_layer_net) = [unit_layer, unit_layer]"
  by (simp add: two_layer_net_def linear_layers_def map_filter_def)

lemma unit_layer_preactivation: "preactivation_of unit_layer [[v]] = Inr [[v]]"
  by (simp add: preactivation_of_def unit_layer_def matmul_T_def dot_def)

lemma two_layer_run:
  "run_layers [unit_layer, unit_layer] [[1 / 4]] pen =
     Inr \<lparr> polytope_memberships = [[[1]], [[0]]], last_activations = [[0]],
           penultimate_act = (if pen then Some [[0]] else None) \<rparr>"
  by (simp add: run_layers_def initial_state_def layer_step_def unit_layer_preactivation
      gt_mask_def mask_mult_def Let_def)

lemma two_layer_get_polytopes:
  "get_polytopes two_layer_net [[1 / 4]] pen = Inr ([[1]], Some [[0]])"
  by (simp add: get_polytopes_def two_layer_layers two_layer_run Let_def concatenate_axis1_def
      tensordot1_def pow2_arange_def n_columns_def upt_rec)

text \<open>
  The theorem at the network of two unit layers and the input \<open>1/4\<close>: it gives the mask
  entry \<open>1\<close> in the first layer, where \<open>1/4 > 0\<close>, and \<open>0\<close> in the last layer, where
  \<open>1/4 > 1/2\<close> fails.
\<close>

theorem get_polytopes_thresholds_witness:
  "\<exists>st. run_layers [unit_layer, unit_layer] [[1 / 4]] False = Inr st
      \<and> polytope_memberships st ! 0 ! 0 ! 0 = 1
      \<and> polytope_memberships st ! 1 ! 0 ! 0 = 0"
proof -
  have ok: "get_polytopes two_layer_net [[1 / 4]] False = Inr ([[1]], Some [[0]])"
    by (rule two_layer_get_polytopes)
  have ls: "[unit_layer, unit_layer] = linear_layers (sequential two_layer_net)"
    by (simp add: two_layer_layers)
  from get_polytopes_thresholds [OF ok ls] obtain st acts pres where
    run: "run_layers [unit_layer, unit_layer] [[1 / 4]] False = Inr st"
    and a0: "acts ! 0 = [[1 / 4]]"
    and all: "\<forall>i<length [unit_layer, unit_layer]. \<exists>b.
               bias ([unit_layer, unit_layer] ! i) = Some b
             \<and> length (pres ! i) = length (acts ! i)
             \<and> length (polytope_memberships st ! i) = length (acts ! i)
             \<and> length (acts ! Suc i) = length (acts ! i)
             \<and> (\<forall>r<length (acts ! i).
                   length (pres ! i ! r)
                     = min (length (weight ([unit_layer, unit_layer] ! i))) (length b)
                 \<and> length (polytope_memberships st ! i ! r) = length (pres ! i ! r)
                 \<and> length (acts ! Suc i ! r) = length (pres ! i ! r)
                 \<and> (\<forall>u<length (pres ! i ! r).
                       pres ! i ! r ! u =
                         (\<Sum>k<min (length (acts ! i ! r))
                               (length (weight ([unit_layer, unit_layer] ! i) ! u)).
                            acts ! i ! r ! k * weight ([unit_layer, unit_layer] ! i) ! u ! k)
                         + b ! u
                     \<and> polytope_memberships st ! i ! r ! u =
                         (if (if i = length [unit_layer, unit_layer] - 1 then 1 / 2 else 0)
                               < pres ! i ! r ! u
                          then 1 else 0)
                     \<and> acts ! Suc i ! r ! u =
                         pres ! i ! r ! u *
                         (if (if i = length [unit_layer, unit_layer] - 1 then 1 / 2 else 0)
                               < pres ! i ! r ! u
                          then 1 else 0)))"
    by blast
  from all [rule_format, of 0] a0
  have p0: "pres ! 0 ! 0 ! 0 = 1 / 4" and m0: "polytope_memberships st ! 0 ! 0 ! 0 = 1"
    and l1: "length (acts ! 1) = 1" and l10: "length (acts ! 1 ! 0) = 1"
    and a1: "acts ! 1 ! 0 ! 0 = 1 / 4"
    by (auto simp: unit_layer_def)
  from all [rule_format, of 1] l1 l10 a1
  have m1: "polytope_memberships st ! 1 ! 0 ! 0 = 0"
    by (auto simp: unit_layer_def)
  from run m0 m1 show ?thesis by blast
qed

section \<open>The activations returned in penultimate mode\<close>

text \<open>
  The flag \<^verbatim>\<open>penultimate\<close> changes neither the masks nor the activations that the loop
  computes, nor the exception it raises.
\<close>

lemma layer_step_core:
  assumes "polytope_memberships st = polytope_memberships st2"
    and "last_activations st = last_activations st2"
  shows "loop_core (layer_step n pen il st) = loop_core (layer_step n pen2 il st2)"
  using assms by (simp add: loop_core_def layer_step_def Let_def split: sum.splits)

lemma layer_loop_core:
  assumes "polytope_memberships st = polytope_memberships st2"
    and "last_activations st = last_activations st2"
  shows "loop_core (layer_loop n pen xs st) = loop_core (layer_loop n pen2 xs st2)"
  using assms
proof (induction xs arbitrary: st st2)
  case Nil
  then show ?case by (simp add: loop_core_def)
next
  case (Cons il xs)
  have step: "loop_core (layer_step n pen il st) = loop_core (layer_step n pen2 il st2)"
    by (rule layer_step_core [OF Cons.prems])
  show ?case
  proof (cases "layer_step n pen il st")
    case (Inl e)
    with step have "layer_step n pen2 il st2 = Inl e"
      by (auto simp: loop_core_def split: sum.splits)
    with Inl show ?thesis by (simp add: loop_core_def)
  next
    case (Inr s)
    with step obtain s2 where s2: "layer_step n pen2 il st2 = Inr s2"
      and eq: "polytope_memberships s = polytope_memberships s2"
        "last_activations s = last_activations s2"
      by (auto simp: loop_core_def split: sum.splits)
    from Cons.IH [OF eq] Inr s2 show ?thesis by simp
  qed
qed

lemma run_layers_core:
  "loop_core (run_layers layers train_x pen) = loop_core (run_layers layers train_x pen2)"
  unfolding run_layers_def by (rule layer_loop_core) simp_all

text \<open>
  Whenever \<^verbatim>\<open>get_polytopes\<close> returns in penultimate mode, the model has an affine layer,
  and the activations returned are those of the last layer after its mask is applied: the
  product of the last preactivation with its mask at threshold \<open>1/2\<close>. They are the
  activations that the call returns without the penultimate mode: the assignment to
  \<^verbatim>\<open>penultimate_act\<close> comes after the update of \<^verbatim>\<open>last_activations\<close>, and the flag changes
  nothing in what is returned.
\<close>

theorem get_polytopes_penultimate_is_final:
  assumes ok: "get_polytopes model train_x True = Inr (ids, act)"
    and layers: "layers = linear_layers (sequential model)"
  shows "layers \<noteq> []
         \<and> (\<exists>st preactivation.
               layer_loop (length layers) True (take (length layers - 1) (enumerate 0 layers))
                 (initial_state train_x) = Inr st
             \<and> preactivation_of (last layers) (last_activations st) = Inr preactivation
             \<and> act = Some (mask_mult preactivation (gt_mask (1 / 2) preactivation)))
         \<and> get_polytopes model train_x False = Inr (ids, act)"
proof -
  let ?n = "length layers"
  from get_polytopes_Inr [OF ok] layers obtain st bits where
    run: "run_layers layers train_x True = Inr st"
    and bits: "concatenate_axis1 (polytope_memberships st) = Inr bits"
    and ids: "ids = [tensordot1 bits (pow2_arange (n_columns bits))]"
    and act: "act = penultimate_act st"
    by auto
  have "polytope_memberships st \<noteq> []"
    using bits by (auto simp: concatenate_axis1_def)
  with run_layers_length [OF run] have ne: "layers \<noteq> []" by auto
  then have i: "?n - 1 < ?n" by simp
  from run_layers_split [OF run i] obtain st_i st_i' where
    a: "layer_loop ?n True (take (?n - 1) (enumerate 0 layers)) (initial_state train_x)
          = Inr st_i"
    and b: "layer_step ?n True (?n - 1, layers ! (?n - 1)) st_i = Inr st_i'"
    and c: "layer_loop ?n True (drop (Suc (?n - 1)) (enumerate 0 layers)) st_i' = Inr st"
    by blast
  have "drop (Suc (?n - 1)) (enumerate 0 layers) = []" by simp
  with c have st: "st = st_i'" by simp
  have lst: "layers ! (?n - 1) = last layers" using ne by (simp add: last_conv_nth)
  have suc: "Suc (?n - 1) = ?n" using ne by simp
  from layer_step_Inr [OF b] obtain pre where
    p1: "preactivation_of (snd (?n - 1, layers ! (?n - 1))) (last_activations st_i) = Inr pre"
    and p2: "last_activations st_i' =
        mask_mult pre (gt_mask (if Suc (fst (?n - 1, layers ! (?n - 1))) = ?n then 1 / 2 else 0) pre)"
    and p3: "penultimate_act st_i' =
        (if True \<and> Suc (fst (?n - 1, layers ! (?n - 1))) = ?n then Some (last_activations st_i')
         else penultimate_act st_i)"
    by blast
  have pre: "preactivation_of (last layers) (last_activations st_i) = Inr pre"
    using p1 lst by simp
  have la: "last_activations st = mask_mult pre (gt_mask (1 / 2) pre)"
    using p2 suc st by simp
  have pa: "penultimate_act st = Some (last_activations st)"
    using p3 suc st by simp
  have act': "act = Some (mask_mult pre (gt_mask (1 / 2) pre))"
    using act pa la by simp
  have "loop_core (run_layers layers train_x False) = loop_core (run_layers layers train_x True)"
    by (rule run_layers_core)
  with run obtain st' where run': "run_layers layers train_x False = Inr st'"
    and pm': "polytope_memberships st' = polytope_memberships st"
    and la': "last_activations st' = last_activations st"
    by (auto simp: loop_core_def split: sum.splits)
  have "get_polytopes model train_x False = Inr (ids, act)"
    using run' pm' la' bits ids act pa layers
    by (simp add: get_polytopes_def Let_def)
  with ne a pre act' show ?thesis by blast
qed

text \<open>The theorem at the network of two unit layers and the input \<open>1/4\<close>.\<close>

theorem get_polytopes_penultimate_is_final_witness:
  "[unit_layer, unit_layer] \<noteq> []
   \<and> (\<exists>st preactivation.
         layer_loop (length [unit_layer, unit_layer]) True
           (take (length [unit_layer, unit_layer] - 1) (enumerate 0 [unit_layer, unit_layer]))
           (initial_state [[1 / 4]]) = Inr st
       \<and> preactivation_of (last [unit_layer, unit_layer]) (last_activations st)
           = Inr preactivation
       \<and> Some [[0]] = Some (mask_mult preactivation (gt_mask (1 / 2) preactivation)))
   \<and> get_polytopes two_layer_net [[1 / 4]] False = Inr ([[1]], Some [[0]])"
proof (rule get_polytopes_penultimate_is_final)
  show "get_polytopes two_layer_net [[1 / 4]] True = Inr ([[1]], Some [[0]])"
    by (rule two_layer_get_polytopes)
  show "[unit_layer, unit_layer] = linear_layers (sequential two_layer_net)"
    by (simp add: two_layer_layers)
qed

text \<open>
  Claim C4 states that in penultimate mode the call returns the activations captured before
  the mask of the last layer is applied, and not the final masked activations. At the
  network of two unit layers and the input \<open>1/4\<close> the call returns \<open>0\<close>, the final masked
  activation, while the activations that enter the last layer, and the last preactivation,
  are \<open>1/4\<close>.
\<close>

theorem get_polytopes_penultimate_not_before_mask:
  "get_polytopes two_layer_net [[1 / 4]] True = Inr ([[1]], Some [[0]])
   \<and> loop_core (layer_loop 2 True (take 1 (enumerate 0 (linear_layers (sequential two_layer_net))))
         (initial_state [[1 / 4]])) = Inr ([[[1]]], [[1 / 4]])
   \<and> preactivation_of (last (linear_layers (sequential two_layer_net))) [[1 / 4]]
       = Inr [[1 / 4]]
   \<and> Some [[0 :: real]] \<noteq> Some [[1 / 4]]"
  by (simp add: two_layer_get_polytopes two_layer_layers unit_layer_preactivation
      loop_core_def layer_step_def initial_state_def gt_mask_def mask_mult_def Let_def)

section \<open>Normalisation layers are ignored\<close>

text \<open>
  Claim C10. Two models whose \<^verbatim>\<open>Linear\<close> layers are the same, whatever their
  \<^verbatim>\<open>BatchNorm1d\<close> layers, get the same result from \<^verbatim>\<open>get_polytopes\<close> on every batch: the same
  identifiers, the same activations, or the same exception.
\<close>

theorem get_polytopes_ignores_batch_norm:
  assumes "linear_layers (sequential model1) = linear_layers (sequential model2)"
  shows "get_polytopes model1 train_x penultimate = get_polytopes model2 train_x penultimate"
  using assms by (simp add: get_polytopes_def)

text \<open>
  The constructor builds the same \<^verbatim>\<open>Linear\<close> layers with \<^verbatim>\<open>bn=True\<close> and with
  \<^verbatim>\<open>bn=False\<close>, from the same initial parameters.
\<close>

lemma append_block_bn:
  assumes "linear_layers ms = linear_layers ms'"
  shows "linear_layers (append_block init use_bias bn n_in n_out ms)
           = linear_layers (append_block init use_bias bn' n_in n_out ms')"
  using assms
  by (simp add: append_block_def Let_def linear_layers_append linear_layers_simps
      nn_Linear_def nn_BatchNorm1d_def)

lemma hidden_blocks_bn:
  assumes "linear_layers ms = linear_layers ms'"
  shows "linear_layers (hidden_blocks init use_bias bn h n ms)
           = linear_layers (hidden_blocks init use_bias bn' h n ms')"
  using assms
proof (induction n arbitrary: ms ms')
  case 0
  then show ?case by simp
next
  case (Suc n)
  show ?case
    unfolding hidden_blocks.simps
    by (rule Suc.IH) (rule append_block_bn [OF Suc.prems])
qed

lemma Net_init_bn:
  "linear_layers (sequential (Net_init init in_dim out_dim h n use_bias pen bn))
     = linear_layers (sequential (Net_init init in_dim out_dim h n use_bias pen bn'))"
proof -
  have hb: "linear_layers (hidden_blocks init use_bias bn h n [nn_Linear init 0 in_dim h use_bias])
        = linear_layers (hidden_blocks init use_bias bn' h n [nn_Linear init 0 in_dim h use_bias])"
    by (rule hidden_blocks_bn) simp
  show ?thesis
  proof (cases pen)
    case True
    then show ?thesis
      by (simp add: Net_init_def Let_def) (intro append_block_bn hb)
  next
    case False
    then show ?thesis
      by (simp add: Net_init_def Let_def) (intro append_block_bn hb)
  qed
qed

text \<open>
  The theorem at \<^verbatim>\<open>Net(2, 1, hidden_size=3, n_hidden=1, bias=True)\<close> built with and without
  normalisation layers: seven modules against five, and the same result, which is a value.
\<close>

theorem get_polytopes_ignores_batch_norm_witness:
  "get_polytopes (Net_init init_ones 2 1 3 1 True False True) [[1, 2], [- 1, 0]] False
     = get_polytopes (Net_init init_ones 2 1 3 1 True False False) [[1, 2], [- 1, 0]] False"
  by (rule get_polytopes_ignores_batch_norm) (rule Net_init_bn)

lemma Net_init_bn_differs:
  "length (sequential (Net_init init_ones 2 1 3 1 True False True)) = 7
   \<and> length (sequential (Net_init init_ones 2 1 3 1 True False False)) = 5"
  by (simp add: Net_init_def Let_def append_block_def)

lemma Net_init_small_value:
  "get_polytopes (Net_init init_ones 2 1 3 1 True False False) [[1, 2], [- 1, 0]] False
     = Inr ([[127, 0]], Some [[27], [0]])"
  by (simp add: get_polytopes_def Net_init_def Let_def append_block_def nn_Linear_def
      linear_layers_simps linear_layers_append init_ones_def run_layers_def initial_state_def
      layer_step_def preactivation_of_def matmul_T_def dot_def gt_mask_def mask_mult_def
      concatenate_axis1_def tensordot1_def pow2_arange_def n_columns_def upt_rec)


section \<open>Region identifiers of wide networks\<close>

lemma replicate_64: "replicate 64 x = x # replicate 63 x"
proof -
  have "(64::nat) = Suc 63" by simp
  then show ?thesis by (simp only: replicate_Suc)
qed

lemma dot_zeros: "dot (replicate n 0) (replicate n 0) = 0"
  by (simp add: dot_def zip_replicate sum_list_replicate)

lemma sum_zero_products:
  fixes ps :: "'a::semiring_0 list"
  shows "sum_list (map2 (*) (replicate n 0) ps) = 0"
proof (induction n arbitrary: ps)
  case 0
  then show ?case by simp
next
  case (Suc n)
  then show ?case by (cases ps) simp_all
qed

lemma wide_first_layer:
  "preactivation_of wide_hidden [[x], [y]]
     = Inr [x # replicate 63 0, y # replicate 63 0]"
  by (simp add: wide_hidden_def preactivation_of_def matmul_T_def dot_def replicate_64 zip_replicate)

lemma wide_second_layer:
  "preactivation_of wide_output [x # replicate 63 0, y # replicate 63 0]
     = Inr [[x - 1], [y - 1]]"
  by (simp add: wide_output_def preactivation_of_def matmul_T_def dot_def zip_replicate sum_list_replicate)

lemma wide_run:
  "run_layers (linear_layers (sequential wide_net)) [[1], [2]] pen =
     Inr \<lparr> polytope_memberships =
             [[1 # replicate 63 0, 1 # replicate 63 0], [[0], [1]]],
           last_activations = [[0], [1]],
           penultimate_act = (if pen then Some [[0], [1]] else None) \<rparr>"
  by (simp add: wide_net_def linear_layers_simps run_layers_def initial_state_def
      layer_step_def wide_first_layer wide_second_layer gt_mask_def mask_mult_def Let_def
      zip_replicate)

lemma wide_patterns:
  "activation_patterns wide_net [[1], [2]]
     = Inr [1 # replicate 63 0 @ [0], 1 # replicate 63 0 @ [1]]"
  by (simp add: activation_patterns_def wide_run concatenate_axis1_def upt_rec)

lemma pow2_arange_65:
  "pow2_arange 65 = 1 # map (\<lambda>i. 2 ^ i) [1..<64] @ [0]"
proof -
  have "[0..<65] = 0 # [1..<64] @ [64]"
    by (simp add: upt_rec [of 0] del: upt_Suc) (simp add: upt_Suc_append [symmetric] del: upt_Suc)
  then show ?thesis by (simp add: pow2_arange_def)
qed

lemma wide_id:
  "sum_list (map2 (*) (1 # replicate 63 0 @ [b]) (pow2_arange 65)) = (1 :: 64 word)"
  by (simp add: pow2_arange_65 sum_zero_products)

text \<open>
  Claim C2 states that two activation patterns of the same length have the same identifier
  only if they are equal, for a network of any size. The identifier is a sum of 64-bit
  integers, and \<open>2 ^ i\<close> wraps around to \<open>0\<close> from \<open>i = 64\<close> on: in the network with
  \<open>64\<close> hidden units and one output the inputs \<open>1\<close> and \<open>2\<close> have patterns that differ in
  unit \<open>64\<close>, the output, and both get the identifier \<open>1\<close>.
\<close>

theorem region_identifiers_collide:
  "activation_patterns wide_net [[1], [2]]
     = Inr [1 # replicate 63 0 @ [0], 1 # replicate 63 0 @ [1]]
   \<and> 1 # replicate 63 0 @ [0] \<noteq> 1 # replicate 63 (0 :: 64 word) @ [1]
   \<and> get_polytopes wide_net [[1], [2]] False = Inr ([[1, 1]], Some [[0], [1]])"
proof (intro conjI)
  show "activation_patterns wide_net [[1], [2]]
     = Inr [1 # replicate 63 0 @ [0], 1 # replicate 63 0 @ [1]]"
    by (rule wide_patterns)
  show "1 # replicate 63 0 @ [0] \<noteq> 1 # replicate 63 (0 :: 64 word) @ [1]" by simp
  show "get_polytopes wide_net [[1], [2]] False = Inr ([[1, 1]], Some [[0], [1]])"
    by (simp add: get_polytopes_def wide_run concatenate_axis1_def upt_rec Let_def
        tensordot1_def n_columns_def wide_id)
qed

section \<open>Region identifiers of at most 64 units\<close>

text \<open>
  Up to \<open>64\<close> units nothing wraps around: the identifier of a pattern is the number that the
  pattern denotes in binary, and two patterns of the same length have the same identifier
  only if they are equal.
\<close>

lemma bits_val_bound: "binary_row bs \<Longrightarrow> bits_val bs < 2 ^ length bs"
proof (induction bs)
  case Nil
  then show ?case by simp
next
  case (Cons b bs)
  then have "bits_val bs < 2 ^ length bs" and "unat b \<le> 1"
    by (auto simp: binary_row_def)
  then show ?case by simp
qed

lemma bits_val_inj:
  assumes "length A = length B" and "binary_row A" and "binary_row B"
    and "bits_val A = bits_val B"
  shows "A = B"
  using assms
proof (induction A B rule: list_induct2)
  case Nil
  then show ?case by simp
next
  case (Cons a A b B)
  from Cons.prems have ab: "a = 0 \<or> a = 1" "b = 0 \<or> b = 1"
    and rows: "binary_row A" "binary_row B"
    and eq: "unat a + 2 * bits_val A = unat b + 2 * bits_val B"
    by (auto simp: binary_row_def)
  from ab eq have "a = b" by (auto; presburger)
  with eq have "bits_val A = bits_val B" by simp
  with Cons.IH rows \<open>a = b\<close> show ?case by simp
qed

lemma weighted_sum_shift:
  "sum_list (map2 (*) row (map (\<lambda>i. 2 ^ i) [k..<k + length row]))
     = (2 ^ k * of_nat (bits_val row) :: 64 word)"
proof (induction row arbitrary: k)
  case Nil
  then show ?case by simp
next
  case (Cons b bs)
  have "k < k + length (b # bs)" by simp
  then have "[k..<k + length (b # bs)] = k # [Suc k..<k + length (b # bs)]"
    by (rule upt_conv_Cons)
  moreover have "k + length (b # bs) = Suc k + length bs" by simp
  ultimately have "[k..<k + length (b # bs)] = k # [Suc k..<Suc k + length bs]"
    by (simp only:)
  then have "sum_list (map2 (*) (b # bs) (map (\<lambda>i. 2 ^ i) [k..<k + length (b # bs)]))
      = b * 2 ^ k + sum_list (map2 (*) bs (map (\<lambda>i. 2 ^ i) [Suc k..<Suc k + length bs]))"
    by simp
  also have "\<dots> = b * 2 ^ k + 2 ^ Suc k * of_nat (bits_val bs)"
    by (simp only: Cons.IH)
  also have "\<dots> = 2 ^ k * of_nat (bits_val (b # bs))"
    by (simp add: algebra_simps)
  finally show ?case .
qed

lemma region_id_bits_val: "region_id row = of_nat (bits_val row)"
  using weighted_sum_shift [of row 0] by (simp add: region_id_def pow2_arange_def)

lemma region_id_injective:
  assumes len: "length A = length B" and small: "length A \<le> 64"
    and A: "binary_row A" and B: "binary_row B"
  shows "region_id A = region_id B \<longleftrightarrow> A = B"
proof
  assume eq: "region_id A = region_id B"
  have p: "(2::nat) ^ length A \<le> 2 ^ 64" using small by (intro power_increasing) simp_all
  have a: "bits_val A < 2 ^ 64" by (rule less_le_trans [OF bits_val_bound [OF A] p])
  have b: "bits_val B < 2 ^ 64"
    by (rule less_le_trans [OF bits_val_bound [OF B] p [unfolded len]])
  from eq have "unat (of_nat (bits_val A) :: 64 word) = unat (of_nat (bits_val B) :: 64 word)"
    by (simp add: region_id_bits_val)
  then have "bits_val A = bits_val B"
    using a b by (simp add: unat_of_nat)
  then show "A = B" by (rule bits_val_inj [OF len A B])
next
  assume "A = B"
  then show "region_id A = region_id B" by simp
qed

text \<open>The identifiers of a batch are those of its rows.\<close>

lemma tensordot1_region_id:
  assumes "list_all (\<lambda>row. length row = n_columns bits) bits"
  shows "tensordot1 bits (pow2_arange (n_columns bits)) = map region_id bits"
  using assms by (auto simp: tensordot1_def region_id_def list_all_iff)


section \<open>Models on which the analysis returns\<close>

text \<open>
  When the layers fit the width of the batch, no pass of the loop raises, and the analysis
  returns if the model has an affine layer at all.
\<close>

lemma preactivation_of_fit:
  assumes "in_features l = w" and "length (weight l) = out_features l"
    and "bias l = Some b" and "length b = out_features l"
    and "list_all (\<lambda>a. length a = w) acts"
  shows "\<exists>pre. preactivation_of l acts = Inr pre \<and> length pre = length acts
           \<and> list_all (\<lambda>a. length a = out_features l) pre"
  using assms
  by (auto simp: preactivation_of_def matmul_T_def list_all_iff list_ex_iff)

lemma layer_step_fit:
  assumes "in_features l = w" and "length (weight l) = out_features l"
    and "bias l = Some b" and "length b = out_features l"
    and "list_all (\<lambda>a. length a = w) (last_activations st)"
  shows "\<exists>st'. layer_step n pen (k, l) st = Inr st'
           \<and> list_all (\<lambda>a. length a = out_features l) (last_activations st')
           \<and> length (polytope_memberships st') = Suc (length (polytope_memberships st))"
proof -
  from preactivation_of_fit [OF assms] obtain pre where
    pre: "preactivation_of l (last_activations st) = Inr pre"
    and rows: "list_all (\<lambda>a. length a = out_features l) pre"
    by blast
  have "list_all (\<lambda>a. length a = out_features l) (mask_mult pre (gt_mask t pre))" for t
    using rows by (auto simp: mask_mult_def gt_mask_def list_all_iff in_set_zip)
  then show ?thesis
    using pre by (auto simp: layer_step_def Let_def)
qed

lemma layer_loop_fit:
  assumes "layers_fit w ls" and "list_all (\<lambda>a. length a = w) (last_activations st)"
  shows "\<exists>st'. layer_loop n pen (enumerate k ls) st = Inr st'
           \<and> length (polytope_memberships st') = length (polytope_memberships st) + length ls"
  using assms
proof (induction ls arbitrary: w st k)
  case Nil
  then show ?case by simp
next
  case (Cons l ls)
  from Cons.prems(1) obtain b where fit: "in_features l = w"
    "length (weight l) = out_features l" "bias l = Some b" "length b = out_features l"
    and rest: "layers_fit (out_features l) ls"
    by (auto split: option.splits)
  from layer_step_fit [OF fit Cons.prems(2)] obtain st1 where
    s1: "layer_step n pen (k, l) st = Inr st1"
    and r1: "list_all (\<lambda>a. length a = out_features l) (last_activations st1)"
    and m1: "length (polytope_memberships st1) = Suc (length (polytope_memberships st))"
    by blast
  from Cons.IH [OF rest r1] obtain st' where
    "layer_loop n pen (enumerate (Suc k) ls) st1 = Inr st'"
    "length (polytope_memberships st') = length (polytope_memberships st1) + length ls"
    by blast
  with s1 m1 show ?case by simp
qed

lemma get_polytopes_returns:
  assumes "linear_layers (sequential model) \<noteq> []"
    and "layers_fit w (linear_layers (sequential model))"
    and "list_all (\<lambda>a. length a = w) train_x"
  shows "\<exists>r. get_polytopes model train_x pen = Inr r"
proof -
  let ?layers = "linear_layers (sequential model)"
  from layer_loop_fit [OF assms(2), of "initial_state train_x" "length ?layers" pen 0] assms(3)
  obtain st where run: "run_layers ?layers train_x pen = Inr st"
    and len: "length (polytope_memberships st) = length ?layers"
    by (auto simp: run_layers_def initial_state_def)
  from len assms(1) have "polytope_memberships st \<noteq> []" by auto
  then have "\<exists>bits. concatenate_axis1 (polytope_memberships st) = Inr bits"
    by (cases "polytope_memberships st") (simp_all add: concatenate_axis1_def)
  then obtain bits where "concatenate_axis1 (polytope_memberships st) = Inr bits" ..
  with run show ?thesis by (simp add: get_polytopes_def Let_def)
qed

lemma Net_init_fits_example:
  "layers_fit 2 (linear_layers (sequential (Net_init init_ones 2 1 3 1 True False True)))"
  by (simp add: Net_init_def Let_def append_block_def nn_Linear_def nn_BatchNorm1d_def
      linear_layers_def map_filter_def)


text \<open>
  The layers that \<^verbatim>\<open>Net.__init__\<close> builds with \<^verbatim>\<open>bias=True\<close>, as \<^verbatim>\<open>get_model\<close> does, fit
  batches of width \<^verbatim>\<open>in_dim\<close>: on them the analysis returns.
\<close>

lemma layers_fit_snoc:
  "layers_fit w (ls @ [l]) \<longleftrightarrow>
     layers_fit w ls \<and> in_features l = out_width w ls \<and> length (weight l) = out_features l
     \<and> (case bias l of None \<Rightarrow> False | Some b \<Rightarrow> length b = out_features l)"
  by (induction ls arbitrary: w) auto

lemma out_width_snoc: "out_width w (ls @ [l]) = out_features l"
  by (induction ls arbitrary: w) simp_all

lemma append_block_fit:
  assumes "layers_fit w (linear_layers ms)" and "out_width w (linear_layers ms) = n_in"
  shows "layers_fit w (linear_layers (append_block init True bn n_in n_out ms))
         \<and> out_width w (linear_layers (append_block init True bn n_in n_out ms)) = n_out"
  using assms
  by (simp add: append_block_def Let_def linear_layers_append linear_layers_simps
      nn_Linear_def nn_BatchNorm1d_def layers_fit_snoc out_width_snoc)

lemma hidden_blocks_fit:
  assumes "layers_fit w (linear_layers ms)" and "out_width w (linear_layers ms) = h"
  shows "layers_fit w (linear_layers (hidden_blocks init True bn h n ms))
         \<and> out_width w (linear_layers (hidden_blocks init True bn h n ms)) = h"
  using assms
proof (induction n arbitrary: ms)
  case 0
  then show ?case by simp
next
  case (Suc n)
  from append_block_fit [OF Suc.prems, of init bn h]
  show ?case unfolding hidden_blocks.simps by (intro Suc.IH) simp_all
qed

lemma Net_init_fits:
  "layers_fit in_dim (linear_layers (sequential
       (Net_init init in_dim out_dim hidden_size n_hidden True penultimate bn)))"
proof -
  let ?m0 = "[nn_Linear init 0 in_dim hidden_size True]"
  let ?m1 = "hidden_blocks init True bn hidden_size n_hidden ?m0"
  have f0: "layers_fit in_dim (linear_layers ?m0)"
    and w0: "out_width in_dim (linear_layers ?m0) = hidden_size"
    by (simp_all add: nn_Linear_def linear_layers_simps)
  from hidden_blocks_fit [OF f0 w0]
  have f1: "layers_fit in_dim (linear_layers ?m1)"
    and w1: "out_width in_dim (linear_layers ?m1) = hidden_size"
    by simp_all
  show ?thesis
  proof (cases penultimate)
    case True
    from append_block_fit [OF f1 w1, of init bn 2]
    have f2: "layers_fit in_dim (linear_layers (append_block init True bn hidden_size 2 ?m1))"
      and w2: "out_width in_dim (linear_layers (append_block init True bn hidden_size 2 ?m1)) = 2"
      by simp_all
    from append_block_fit [OF f2 w2, of init bn out_dim] True
    show ?thesis by (simp add: Net_init_def Let_def)
  next
    case False
    from append_block_fit [OF f1 w1, of init bn out_dim] False
    show ?thesis by (simp add: Net_init_def Let_def)
  qed
qed


lemma Net_init_get_polytopes_returns:
  assumes "list_all (\<lambda>a. length a = in_dim) train_x"
  shows "\<exists>r. get_polytopes
               (Net_init init in_dim out_dim hidden_size n_hidden True penultimate bn)
               train_x pen = Inr r"
proof (rule get_polytopes_returns [OF _ Net_init_fits assms])
  have "0 < length (linear_layers (sequential
      (Net_init init in_dim out_dim hidden_size n_hidden True penultimate bn)))"
    by (simp add: Net_init_def Let_def linear_layers_append_block)
  then show "linear_layers (sequential
      (Net_init init in_dim out_dim hidden_size n_hidden True penultimate bn)) \<noteq> []"
    by auto
qed

end
